theory Spec2Isabelle
  imports Main "HOL-Library.Word"
begin

unbundle bit_operations_syntax

section \<open>Data model\<close>

text \<open>
  \<^verbatim>\<open>std::byte\<close> and \<^verbatim>\<open>std::uint8_t\<close> are 8-bit words, \<^verbatim>\<open>std::uint64_t\<close> and
  \<^verbatim>\<open>virt_addr\<close> are 64-bit words. The header declaring \<^verbatim>\<open>breakpoint_site::id_type\<close>
  is not among the sources; ids are taken as mathematical integers (the signed
  overflow of \<^verbatim>\<open>++id\<close> is undefined in C++ and is not modelled).
\<close>

type_synonym byte = "8 word"
type_synonym u64 = "64 word"
type_synonym virt_addr = "64 word"
type_synonym id_type = int

text \<open>\<^verbatim>\<open>enum class process_state\<close> of the process header.\<close>

datatype process_state = stopped | running | exited | terminated

text \<open>
  Modelled from the spec: \<^verbatim>\<open>libsdb/error.hpp\<close> is not among the sources. Section 7:
  a single error kind carrying a message and an optional OS errno. \<^verbatim>\<open>error::send\<close>
  raises the message alone, \<^verbatim>\<open>error::send_errno\<close> the message with the current
  \<^verbatim>\<open>errno\<close>.
\<close>

datatype error = Error string "nat option"

definition send :: "string \<Rightarrow> error" where
  "send what = Error what None"

definition send_errno :: "string \<Rightarrow> nat \<Rightarrow> error" where
  "send_errno prefix errno = Error prefix (Some errno)"

text \<open>
  The fields of \<^verbatim>\<open>class breakpoint_site\<close> that \<^verbatim>\<open>breakpoint_site.cpp\<close> reads and
  writes, named without the trailing underscore of the source (\<open>site_id\<close> is
  \<^verbatim>\<open>id_\<close>). The back pointer \<^verbatim>\<open>process_\<close> is not a field of the record: every
  operation takes the process explicitly and returns it updated.
\<close>

record breakpoint_site =
  site_id :: id_type
  address :: virt_addr
  is_enabled :: bool
  saved_data :: byte
  is_hardware :: bool
  is_internal :: bool
  hardware_register_index :: int

text \<open>
  \<^verbatim>\<open>enum class stoppoint_mode\<close>: its header is not among the sources; the tool names
  the three enumerators \<^verbatim>\<open>write\<close>, \<^verbatim>\<open>read_write\<close> and \<^verbatim>\<open>execute\<close>.
\<close>

datatype stoppoint_mode = mode_write | mode_read_write | mode_execute

text \<open>
  Modelled from the spec: \<^verbatim>\<open>class watchpoint\<close> (\<^verbatim>\<open>watchpoint.hpp\<close> and
  \<^verbatim>\<open>watchpoint.cpp\<close> are not among the sources). Section 3: "(id, address, mode,
  size, enabled, hardware-slot, previous-data, current-data)".
\<close>

record watchpoint =
  wp_id :: id_type
  wp_address :: virt_addr
  wp_mode :: stoppoint_mode
  wp_size :: nat
  wp_is_enabled :: bool
  wp_hardware_register_index :: int
  previous_data :: "byte list"
  current_data :: "byte list"

text \<open>The requests that \<^verbatim>\<open>breakpoint_site.cpp\<close> sends to the kernel.\<close>

datatype ptrace_call = PEEKDATA virt_addr | POKEDATA virt_addr u64

text \<open>
  The members of \<^verbatim>\<open>class process\<close> (private section of the header), together with
  the kernel's side of the tracee that the process object owns exclusively:
  \<^item> \<open>tracee_memory\<close>: the tracee's memory, byte by byte;
  \<^item> \<open>peek_errno a\<close>, \<open>poke_errno a\<close>: the \<^verbatim>\<open>errno\<close> that a \<^verbatim>\<open>PTRACE_PEEKDATA\<close>,
    \<^verbatim>\<open>PTRACE_POKEDATA\<close> request at address \<open>a\<close> sets, 0 when the request succeeds
    (the kernel decides; the model takes its decision as given);
  \<^item> \<open>poke_partial a\<close>: whether a \<^verbatim>\<open>PTRACE_POKEDATA\<close> request at \<open>a\<close> that fails does
    so only at the second page of its word, after the bytes on the first page have
    been written (see \<open>ptrace_pokedata\<close>);
  \<^item> \<open>read_errno a n\<close>: the same for a bulk read of \<open>n\<close> bytes at \<open>a\<close>;
  \<^item> \<open>pokeuser_errno i\<close>: the same for writing debug register \<open>i\<close> to the tracee's
    user area;
  \<^item> \<open>ptrace_calls\<close>: the requests sent so far, oldest first (a history variable:
    no code reads it);
  \<^item> \<open>torn_writes\<close>: the addresses of the \<^verbatim>\<open>PTRACE_POKEDATA\<close> requests so far that
    failed with part of their word written (a history variable as well);
  \<^item> \<open>state_history\<close>: the values assigned to \<^verbatim>\<open>state_\<close> since the constructor, oldest
    first (a history variable as well).
  Of the register file \<^verbatim>\<open>registers_\<close> the record has the eight debug registers,
  \<open>debug_regs i\<close> for DR\<open>i\<close>.
\<close>

record process =
  pid :: int
  terminate_on_end :: bool
  state :: process_state
  is_attached :: bool
  debug_regs :: "nat \<Rightarrow> u64"
  breakpoint_sites :: "breakpoint_site list"
  watchpoints :: "watchpoint list"
  tracee_memory :: "virt_addr \<Rightarrow> byte"
  peek_errno :: "virt_addr \<Rightarrow> nat"
  poke_errno :: "virt_addr \<Rightarrow> nat"
  poke_partial :: "virt_addr \<Rightarrow> bool"
  read_errno :: "virt_addr \<Rightarrow> nat \<Rightarrow> nat"
  pokeuser_errno :: "nat \<Rightarrow> nat"
  ptrace_calls :: "ptrace_call list"
  torn_writes :: "virt_addr list"
  state_history :: "process_state list"

section \<open>The kernel interface\<close>

text \<open>
  x86-64 is little endian: the word that \<^verbatim>\<open>PTRACE_PEEKDATA\<close> returns for address
  \<open>a\<close> has the byte at \<open>a\<close> as its low byte and the byte at \<open>a + 7\<close> as its high
  byte. Addresses wrap around at \<open>2 ^ 64\<close>.
\<close>

fun le_word :: "byte list \<Rightarrow> u64" where
  "le_word [] = 0"
| "le_word (b # bs) = ucast b OR push_bit 8 (le_word bs)"

definition byte_at :: "u64 \<Rightarrow> nat \<Rightarrow> byte" where
  "byte_at w i = ucast (drop_bit (8 * i) w)"

definition peek_word :: "(virt_addr \<Rightarrow> byte) \<Rightarrow> virt_addr \<Rightarrow> u64" where
  "peek_word m a = le_word (map (\<lambda>i. m (a + of_nat i)) [0..<8])"

definition poke_word :: "(virt_addr \<Rightarrow> byte) \<Rightarrow> virt_addr \<Rightarrow> u64 \<Rightarrow> (virt_addr \<Rightarrow> byte)" where
  "poke_word m a w = (\<lambda>x. if x - a < 8 then byte_at w (unat (x - a)) else m x)"

text \<open>
  \<^verbatim>\<open>ptrace(PTRACE_PEEKDATA, pid, a, nullptr)\<close> called with \<^verbatim>\<open>errno = 0\<close>: the
  returned word and the \<^verbatim>\<open>errno\<close> after the call. On failure the kernel
  returns -1 and sets \<^verbatim>\<open>errno\<close>; on success \<^verbatim>\<open>errno\<close> stays 0.
\<close>

definition ptrace_peekdata :: "process \<Rightarrow> virt_addr \<Rightarrow> (u64 \<times> nat) \<times> process" where
  "ptrace_peekdata p a =
     (let p' = p\<lparr>ptrace_calls := ptrace_calls p @ [PEEKDATA a]\<rparr>
      in if peek_errno p a = 0 then ((peek_word (tracee_memory p) a, 0), p')
         else ((- 1, peek_errno p a), p'))"

text \<open>
  The kernel copies the word of a \<^verbatim>\<open>PTRACE_POKEDATA\<close> request into the tracee page by
  page (pages of 4096 bytes), lower addresses first, and stops at the first page that
  it cannot write. \<open>first_page_bytes a\<close> is the number of bytes of the word at \<open>a\<close>
  that lie on the page of \<open>a\<close> when the word crosses into the next page, and 0 when
  the word lies on one page. \<open>poke_bytes n\<close> writes the first \<open>n\<close> bytes of a word.
\<close>

definition page_size :: nat where
  "page_size = 4096"

definition first_page_bytes :: "virt_addr \<Rightarrow> nat" where
  "first_page_bytes a =
     (let n = page_size - unat a mod page_size in if n < 8 then n else 0)"

definition poke_bytes ::
  "nat \<Rightarrow> (virt_addr \<Rightarrow> byte) \<Rightarrow> virt_addr \<Rightarrow> u64 \<Rightarrow> (virt_addr \<Rightarrow> byte)" where
  "poke_bytes n m a w = (\<lambda>x. if unat (x - a) < n then byte_at w (unat (x - a)) else m x)"

text \<open>
  \<^verbatim>\<open>ptrace(PTRACE_POKEDATA, pid, a, w)\<close>: the return value (0, or -1 on failure)
  and the \<^verbatim>\<open>errno\<close> it sets. A request that succeeds has written the eight bytes.
  A request that fails has written nothing, unless the word crosses a page boundary
  and the kernel could write the first page and not the second (\<open>poke_partial\<close>):
  then the bytes on the first page are written and the request fails all the same
  (Linux reports \<^verbatim>\<open>EIO\<close>).
\<close>

definition ptrace_pokedata :: "process \<Rightarrow> virt_addr \<Rightarrow> u64 \<Rightarrow> (int \<times> nat) \<times> process" where
  "ptrace_pokedata p a w =
     (let p' = p\<lparr>ptrace_calls := ptrace_calls p @ [POKEDATA a w]\<rparr>
      in if poke_errno p a = 0
         then ((0, 0), p'\<lparr>tracee_memory := poke_word (tracee_memory p) a w\<rparr>)
         else if poke_partial p a \<and> 0 < first_page_bytes a
         then ((- 1, poke_errno p a),
               p'\<lparr>tracee_memory := poke_bytes (first_page_bytes a) (tracee_memory p) a w,
                  torn_writes := torn_writes p @ [a]\<rparr>)
         else ((- 1, poke_errno p a), p'))"

section \<open>Breakpoint sites\<close>

text \<open>
  \<^verbatim>\<open>get_next_id\<close>: the counter is a function-local \<^verbatim>\<open>static\<close>, one for the whole
  program. The model passes it in and returns it incremented: the returned id and the
  new counter are the same number.
\<close>

definition get_next_id :: "id_type \<Rightarrow> id_type \<times> id_type" where
  "get_next_id counter = (counter + 1, counter + 1)"

text \<open>
  The header with the default member initialiser of \<^verbatim>\<open>hardware_register_index_\<close> is
  not among the sources, and the constructor does not set the field. The model uses
  -1, the value that \<^verbatim>\<open>disable\<close> stores for "no slot"; no theorem below depends on
  the choice.
\<close>

definition no_hardware_register :: int where
  "no_hardware_register = - 1"

text \<open>
  The constructor: the site it builds and the id counter after it. \<^verbatim>\<open>saved_data_{}\<close>
  is the zero byte.
\<close>

definition new_breakpoint_site ::
  "id_type \<Rightarrow> virt_addr \<Rightarrow> bool \<Rightarrow> bool \<Rightarrow> breakpoint_site \<times> id_type" where
  "new_breakpoint_site counter addr hardware internal =
     (let (i, counter') = (if internal then (- 1, counter) else get_next_id counter)
      in (\<lparr>site_id = i, address = addr, is_enabled = False, saved_data = 0,
           is_hardware = hardware, is_internal = internal,
           hardware_register_index = no_hardware_register\<rparr>, counter'))"

text \<open>
  \<^verbatim>\<open>process::set_hardware_breakpoint\<close> and \<^verbatim>\<open>process::clear_hardware_stoppoint\<close> are
  defined in \<^verbatim>\<open>process.cpp\<close>, which is not among the sources: \<open>enable\<close> and
  \<open>disable\<close> take them as parameters. A call either throws or returns, and the
  process it leaves behind is kept in both cases.
\<close>

type_synonym set_hardware_breakpoint_fn =
  "process \<Rightarrow> id_type \<Rightarrow> virt_addr \<Rightarrow> (error + int) \<times> process"

type_synonym clear_hardware_stoppoint_fn =
  "process \<Rightarrow> int \<Rightarrow> (error + unit) \<times> process"

text \<open>
  \<^verbatim>\<open>breakpoint_site::enable\<close>. The result is \<open>Inl e\<close> when the call throws \<open>e\<close> and
  \<open>Inr ()\<close> when it returns, with the site and the process as the call leaves them.
  In \<^verbatim>\<open>data & ~0xff\<close> the \<^verbatim>\<open>int\<close> value \<^verbatim>\<open>~0xff\<close> is sign-extended to 64 bits, so
  the mask clears the low byte only.
\<close>

definition enable ::
  "set_hardware_breakpoint_fn \<Rightarrow> breakpoint_site \<Rightarrow> process
     \<Rightarrow> (error + unit) \<times> breakpoint_site \<times> process" where
  "enable set_hardware_breakpoint s p =
     (if is_enabled s then (Inr (), s, p)
      else if is_hardware s then
        (case set_hardware_breakpoint p (site_id s) (address s) of
           (Inl e, p') \<Rightarrow> (Inl e, s, p')
         | (Inr index, p') \<Rightarrow>
             (Inr (), s\<lparr>hardware_register_index := index, is_enabled := True\<rparr>, p'))
      else
        (case ptrace_peekdata p (address s) of
           ((data, errno), p1) \<Rightarrow>
             if errno \<noteq> 0
             then (Inl (send_errno ''Enabling breakpoint site failed'' errno), s, p1)
             else
               let s1 = s\<lparr>saved_data := ucast (data AND 0xff)\<rparr>;
                   int3 = 0xcc;
                   data_with_int3 = (data AND NOT 0xff) OR int3
               in (case ptrace_pokedata p1 (address s) data_with_int3 of
                     ((r, errno'), p2) \<Rightarrow>
                       if r < 0
                       then (Inl (send_errno ''Enabling breakpoing site failed'' errno'), s1, p2)
                       else (Inr (), s1\<lparr>is_enabled := True\<rparr>, p2))))"

text \<open>
  \<^verbatim>\<open>breakpoint_site::disable\<close>. The \<^verbatim>\<open>std::uint8_t\<close> value of \<^verbatim>\<open>saved_data_\<close> is
  zero-extended to 64 bits.
\<close>

definition disable ::
  "clear_hardware_stoppoint_fn \<Rightarrow> breakpoint_site \<Rightarrow> process
     \<Rightarrow> (error + unit) \<times> breakpoint_site \<times> process" where
  "disable clear_hardware_stoppoint s p =
     (if \<not> is_enabled s then (Inr (), s, p)
      else if is_hardware s then
        (case clear_hardware_stoppoint p (hardware_register_index s) of
           (Inl e, p') \<Rightarrow> (Inl e, s, p')
         | (Inr u, p') \<Rightarrow>
             (Inr (), s\<lparr>hardware_register_index := - 1, is_enabled := False\<rparr>, p'))
      else
        (case ptrace_peekdata p (address s) of
           ((data, errno), p1) \<Rightarrow>
             if errno \<noteq> 0
             then (Inl (send_errno ''Disabling breakpoint site failed'' errno), s, p1)
             else
               let restored_data = (data AND NOT 0xff) OR ucast (saved_data s)
               in (case ptrace_pokedata p1 (address s) restored_data of
                     ((r, errno'), p2) \<Rightarrow>
                       if r < 0
                       then (Inl (send_errno ''Disabling breakpoint site failed'' errno'), s, p2)
                       else (Inr (), s\<lparr>is_enabled := False\<rparr>, p2))))"

section \<open>Sequences of calls\<close>

text \<open>
  The constructor called once for each request \<open>(address, is_hardware, is_internal)\<close>
  of a list, in order, the id counter running through the calls.
\<close>

fun construct_sites ::
  "id_type \<Rightarrow> (virt_addr \<times> bool \<times> bool) list \<Rightarrow> breakpoint_site list \<times> id_type" where
  "construct_sites counter [] = ([], counter)"
| "construct_sites counter ((addr, hardware, internal) # rs) =
     (case new_breakpoint_site counter addr hardware internal of
        (s, counter') \<Rightarrow>
          (case construct_sites counter' rs of (ss, counter'') \<Rightarrow> (s # ss, counter'')))"

section \<open>Reading the tracee's memory\<close>

text \<open>
  Modelled from the spec: \<^verbatim>\<open>process::read_memory\<close> is defined in \<^verbatim>\<open>process.cpp\<close>,
  which is not among the sources. Section 4.1: "Returns exactly \<open>n\<close> bytes or fails."
  \<open>None\<close> is the failure.
\<close>

definition read_memory :: "process \<Rightarrow> virt_addr \<Rightarrow> nat \<Rightarrow> byte list option" where
  "read_memory p a n =
     (if read_errno p a n = 0 then Some (map (\<lambda>i. tracee_memory p (a + of_nat i)) [0..<n])
      else None)"



section \<open>Debug registers\<close>

text \<open>
  Modelled from the spec: the hardware slot allocation of \<^verbatim>\<open>process.cpp\<close>, which is
  not among the sources (the header declares \<^verbatim>\<open>set_hardware_stoppoint\<close>,
  \<^verbatim>\<open>set_hardware_breakpoint\<close>, \<^verbatim>\<open>set_watchpoint\<close> and \<^verbatim>\<open>clear_hardware_stoppoint\<close>).
  Section 6: "DR7 layout (local-enable bits 0,2,4,6; length/mode in bits 16-31, two
  bits each of mode then two bits of length, per slot)". A slot is in use when
  its local-enable bit is set.
\<close>

definition enable_bit :: "nat \<Rightarrow> u64" where
  "enable_bit slot = push_bit (2 * slot) 1"

definition mode_bits :: "nat \<Rightarrow> u64 \<Rightarrow> u64" where
  "mode_bits slot flag = push_bit (16 + 4 * slot) flag"

definition size_bits :: "nat \<Rightarrow> u64 \<Rightarrow> u64" where
  "size_bits slot flag = push_bit (18 + 4 * slot) flag"

definition clear_mask :: "nat \<Rightarrow> u64" where
  "clear_mask slot = push_bit (2 * slot) 1 OR push_bit (16 + 4 * slot) 15"

definition slot_in_use :: "u64 \<Rightarrow> nat \<Rightarrow> bool" where
  "slot_in_use control slot = bit control (2 * slot)"

text \<open>
  Modelled from the spec: the search for a slot. Section 4.1: "chooses a free slot
  (lowest-index)"; \<open>None\<close> when all four are in use.
\<close>

definition find_free_slot :: "u64 \<Rightarrow> nat option" where
  "find_free_slot control =
     (case filter (\<lambda>slot. \<not> slot_in_use control slot) [0, 1, 2, 3] of
        [] \<Rightarrow> None
      | slot # rest \<Rightarrow> Some slot)"

text \<open>
  Modelled from the spec: the encodings. Section 4.1: "mode (00 exec, 01 write, 11
  read/write)" and "encoded length (size-1 for 1/2/4; 8 encodes as 10 binary)".
  Another size has no encoding.
\<close>

fun encode_mode :: "stoppoint_mode \<Rightarrow> u64" where
  "encode_mode mode_execute = 0"
| "encode_mode mode_write = 1"
| "encode_mode mode_read_write = 3"

definition encode_size :: "nat \<Rightarrow> u64 option" where
  "encode_size sz =
     (if sz = 1 then Some 0 else if sz = 2 then Some 1 else if sz = 4 then Some 3
      else if sz = 8 then Some 2 else None)"

text \<open>
  Modelled from the spec: \<^verbatim>\<open>process::set_hardware_stoppoint\<close>. Section 4.1: "chooses a
  free slot (lowest-index), writes addr into the corresponding DR, updates DR7
  (local-enable=1, length, mode), returns the slot index. Failure when all four slots
  are occupied." Section 7: "State-mutating operations are atomic on failure: a failed
  hardware allocation does not consume a slot", so a call that throws, also because
  the kernel refuses a register write, leaves the registers as they were. The texts of
  the messages are the model's.
\<close>

definition set_hardware_stoppoint ::
  "process \<Rightarrow> virt_addr \<Rightarrow> stoppoint_mode \<Rightarrow> nat \<Rightarrow> (error + int) \<times> process" where
  "set_hardware_stoppoint p addr mode sz =
     (let control = debug_regs p 7
      in case find_free_slot control of
           None \<Rightarrow> (Inl (send ''No remaining hardware debug registers''), p)
         | Some slot \<Rightarrow>
             (case encode_size sz of
                None \<Rightarrow> (Inl (send ''Invalid stoppoint size''), p)
              | Some size_flag \<Rightarrow>
                  if pokeuser_errno p slot \<noteq> 0
                  then (Inl (send_errno ''Could not write to user area'' (pokeuser_errno p slot)), p)
                  else if pokeuser_errno p 7 \<noteq> 0
                  then (Inl (send_errno ''Could not write to user area'' (pokeuser_errno p 7)), p)
                  else
                    let masked = (control AND NOT (clear_mask slot)) OR enable_bit slot
                          OR mode_bits slot (encode_mode mode) OR size_bits slot size_flag
                    in (Inr (int slot),
                        p\<lparr>debug_regs := (debug_regs p)(slot := addr, 7 := masked)\<rparr>)))"

text \<open>
  Modelled from the spec: \<^verbatim>\<open>process::set_hardware_breakpoint\<close> ("length=00, mode=00
  execute") and \<^verbatim>\<open>process::set_watchpoint\<close> ("same with encoded length and mode").
\<close>

definition set_hardware_breakpoint :: set_hardware_breakpoint_fn where
  "set_hardware_breakpoint p i addr = set_hardware_stoppoint p addr mode_execute 1"

definition set_watchpoint ::
  "process \<Rightarrow> id_type \<Rightarrow> virt_addr \<Rightarrow> stoppoint_mode \<Rightarrow> nat \<Rightarrow> (error + int) \<times> process" where
  "set_watchpoint p i addr mode sz = set_hardware_stoppoint p addr mode sz"

text \<open>
  Modelled from the spec: \<^verbatim>\<open>process::clear_hardware_stoppoint\<close>. Section 4.1: "zeroes
  the DR and clears DR7 bits". An index that is no slot (the C++ would shift by it) is
  refused; a stop point that is enabled never passes one.
\<close>

definition clear_hardware_stoppoint :: clear_hardware_stoppoint_fn where
  "clear_hardware_stoppoint p index =
     (if index < 0 \<or> 4 \<le> index then (Inl (send ''Invalid hardware register index''), p)
      else
        let slot = nat index
        in if pokeuser_errno p slot \<noteq> 0
           then (Inl (send_errno ''Could not write to user area'' (pokeuser_errno p slot)), p)
           else if pokeuser_errno p 7 \<noteq> 0
           then (Inl (send_errno ''Could not write to user area'' (pokeuser_errno p 7)), p)
           else (Inr (),
                 p\<lparr>debug_regs := (debug_regs p)
                      (slot := 0, 7 := debug_regs p 7 AND NOT (clear_mask slot))\<rparr>))"

section \<open>Watchpoints\<close>

text \<open>
  Modelled from the spec: the constructor of \<^verbatim>\<open>watchpoint\<close>, with an id counter of
  its own as \<^verbatim>\<open>breakpoint_site.cpp\<close> has one. Section 4.5: "\<open>previous_data\<close> is empty
  until the first observed fire".
\<close>

definition new_watchpoint ::
  "id_type \<Rightarrow> virt_addr \<Rightarrow> stoppoint_mode \<Rightarrow> nat \<Rightarrow> watchpoint \<times> id_type" where
  "new_watchpoint counter addr mode sz =
     (\<lparr>wp_id = counter + 1, wp_address = addr, wp_mode = mode, wp_size = sz,
       wp_is_enabled = False, wp_hardware_register_index = - 1,
       previous_data = [], current_data = []\<rparr>, counter + 1)"

text \<open>
  Modelled from the spec: \<^verbatim>\<open>watchpoint::enable\<close> and \<^verbatim>\<open>watchpoint::disable\<close>. Section
  4.5: "\<^verbatim>\<open>enable()/disable()\<close> as with hardware breakpoints. On enable, also samples the
  current data at the watched range (raw \<open>read_memory\<close>) into \<open>current_data\<close>". The
  sample is taken first, so that a failed read leaves everything as it was.
\<close>

definition watchpoint_enable ::
  "watchpoint \<Rightarrow> process \<Rightarrow> (error + unit) \<times> watchpoint \<times> process" where
  "watchpoint_enable w p =
     (if wp_is_enabled w then (Inr (), w, p)
      else
        (case read_memory p (wp_address w) (wp_size w) of
           None \<Rightarrow> (Inl (send ''Could not read process memory''), w, p)
         | Some data \<Rightarrow>
             (case set_watchpoint p (wp_id w) (wp_address w) (wp_mode w) (wp_size w) of
                (Inl e, p') \<Rightarrow> (Inl e, w, p')
              | (Inr index, p') \<Rightarrow>
                  (Inr (), w\<lparr>wp_hardware_register_index := index, current_data := data,
                            wp_is_enabled := True\<rparr>, p'))))"

definition watchpoint_disable ::
  "watchpoint \<Rightarrow> process \<Rightarrow> (error + unit) \<times> watchpoint \<times> process" where
  "watchpoint_disable w p =
     (if \<not> wp_is_enabled w then (Inr (), w, p)
      else
        (case clear_hardware_stoppoint p (wp_hardware_register_index w) of
           (Inl e, p') \<Rightarrow> (Inl e, w, p')
         | (Inr u, p') \<Rightarrow>
             (Inr (), w\<lparr>wp_hardware_register_index := - 1, wp_is_enabled := False\<rparr>, p')))"

section \<open>The process and its stop points\<close>

text \<open>
  The debugger as a whole: the id counters, which live outside every process object,
  and the process with its two collections. A reference to a stop point, as
  \<^verbatim>\<open>create_breakpoint_site\<close> returns one, is its position in the collection.
\<close>

record debugger =
  site_ids :: id_type
  watchpoint_ids :: id_type
  proc :: process

text \<open>
  Modelled from the spec: \<^verbatim>\<open>process::create_breakpoint_site\<close> of \<^verbatim>\<open>process.cpp\<close>.
  Section 4.1: "allocates an id, inserts into the collection, returns a reference.
  Duplicate address \<open>\<Rightarrow>\<close> fail." The site is built by the constructor of
  \<^verbatim>\<open>breakpoint_site.cpp\<close>.
\<close>

definition create_breakpoint_site ::
  "debugger \<Rightarrow> virt_addr \<Rightarrow> bool \<Rightarrow> bool \<Rightarrow> (error + nat) \<times> debugger" where
  "create_breakpoint_site d addr hardware internal =
     (let sites = breakpoint_sites (proc d)
      in if addr \<in> set (map address sites)
         then (Inl (send ''Breakpoint site already created at address''), d)
         else
           (case new_breakpoint_site (site_ids d) addr hardware internal of
              (s, counter') \<Rightarrow>
                (Inr (length sites),
                 d\<lparr>site_ids := counter',
                   proc := (proc d)\<lparr>breakpoint_sites := sites @ [s]\<rparr>\<rparr>)))"

text \<open>
  Modelled from the spec: \<^verbatim>\<open>process::create_watchpoint\<close> of \<^verbatim>\<open>process.cpp\<close>. Section
  4.1: "\<^verbatim>\<open>create_watchpoint(addr, mode, size)\<close> analogous; \<open>size \<notin> {1,2,4,8} \<Rightarrow>\<close> fail."
  As \<^verbatim>\<open>create_breakpoint_site\<close> it allocates an id, inserts into the collection and
  returns a reference. The failure that the spec gives it is the one for the size;
  the failure for a duplicate address is given for breakpoint sites (section 3: "Two
  sites may not share the same address"; section 7: "duplicate breakpoint address").
\<close>

definition create_watchpoint ::
  "debugger \<Rightarrow> virt_addr \<Rightarrow> stoppoint_mode \<Rightarrow> nat \<Rightarrow> (error + nat) \<times> debugger" where
  "create_watchpoint d addr mode sz =
     (let points = watchpoints (proc d)
      in if sz \<notin> {1, 2, 4, 8}
         then (Inl (send ''Invalid watchpoint size''), d)
         else
           (case new_watchpoint (watchpoint_ids d) addr mode sz of
              (w, counter') \<Rightarrow>
                (Inr (length points),
                 d\<lparr>watchpoint_ids := counter',
                   proc := (proc d)\<lparr>watchpoints := points @ [w]\<rparr>\<rparr>)))"

text \<open>
  Modelled from the spec: access to a stop point of a collection
  (\<^verbatim>\<open>stoppoint_collection.hpp\<close> is not among the sources). \<^verbatim>\<open>enable()\<close> and
  \<^verbatim>\<open>disable()\<close> through a reference, as the tool calls them on \<^verbatim>\<open>get_by_id(id)\<close>: the
  stop point is taken from the collection, the call runs on it and the process, and the
  stop point is stored back. A reference to nothing throws (section 7: "bad stop-point
  id").
\<close>

definition enable_breakpoint_site :: "debugger \<Rightarrow> nat \<Rightarrow> (error + unit) \<times> debugger" where
  "enable_breakpoint_site d k =
     (if length (breakpoint_sites (proc d)) \<le> k then (Inl (send ''Invalid stoppoint id''), d)
      else
        (case enable set_hardware_breakpoint (breakpoint_sites (proc d) ! k) (proc d) of
           (r, s', p') \<Rightarrow>
             (r, d\<lparr>proc := p'\<lparr>breakpoint_sites := (breakpoint_sites p')[k := s']\<rparr>\<rparr>)))"

definition disable_breakpoint_site :: "debugger \<Rightarrow> nat \<Rightarrow> (error + unit) \<times> debugger" where
  "disable_breakpoint_site d k =
     (if length (breakpoint_sites (proc d)) \<le> k then (Inl (send ''Invalid stoppoint id''), d)
      else
        (case disable clear_hardware_stoppoint (breakpoint_sites (proc d) ! k) (proc d) of
           (r, s', p') \<Rightarrow>
             (r, d\<lparr>proc := p'\<lparr>breakpoint_sites := (breakpoint_sites p')[k := s']\<rparr>\<rparr>)))"

definition enable_watchpoint :: "debugger \<Rightarrow> nat \<Rightarrow> (error + unit) \<times> debugger" where
  "enable_watchpoint d k =
     (if length (watchpoints (proc d)) \<le> k then (Inl (send ''Invalid stoppoint id''), d)
      else
        (case watchpoint_enable (watchpoints (proc d) ! k) (proc d) of
           (r, w', p') \<Rightarrow>
             (r, d\<lparr>proc := p'\<lparr>watchpoints := (watchpoints p')[k := w']\<rparr>\<rparr>)))"

definition disable_watchpoint :: "debugger \<Rightarrow> nat \<Rightarrow> (error + unit) \<times> debugger" where
  "disable_watchpoint d k =
     (if length (watchpoints (proc d)) \<le> k then (Inl (send ''Invalid stoppoint id''), d)
      else
        (case watchpoint_disable (watchpoints (proc d) ! k) (proc d) of
           (r, w', p') \<Rightarrow>
             (r, d\<lparr>proc := p'\<lparr>watchpoints := (watchpoints p')[k := w']\<rparr>\<rparr>)))"

text \<open>
  Modelled from the spec: removal from a collection. Section 4.3: "Removal invokes
  T's \<^verbatim>\<open>disable()\<close> before destruction"; when \<^verbatim>\<open>disable()\<close> throws, the stop point
  stays.
\<close>

definition remove_at :: "nat \<Rightarrow> 'a list \<Rightarrow> 'a list" where
  "remove_at k xs = take k xs @ drop (Suc k) xs"

definition remove_breakpoint_site :: "debugger \<Rightarrow> nat \<Rightarrow> (error + unit) \<times> debugger" where
  "remove_breakpoint_site d k =
     (case disable_breakpoint_site d k of
        (Inl e, d') \<Rightarrow> (Inl e, d')
      | (Inr u, d') \<Rightarrow>
          (Inr (), d'\<lparr>proc := (proc d')
             \<lparr>breakpoint_sites := remove_at k (breakpoint_sites (proc d'))\<rparr>\<rparr>))"

definition remove_watchpoint :: "debugger \<Rightarrow> nat \<Rightarrow> (error + unit) \<times> debugger" where
  "remove_watchpoint d k =
     (case disable_watchpoint d k of
        (Inl e, d') \<Rightarrow> (Inl e, d')
      | (Inr u, d') \<Rightarrow>
          (Inr (), d'\<lparr>proc := (proc d')
             \<lparr>watchpoints := remove_at k (watchpoints (proc d'))\<rparr>\<rparr>))"

text \<open>
  What a session does to the stop points: the calls above, made by a caller that
  catches \<^verbatim>\<open>sdb::error\<close> and carries on, and the kernel changing how it will answer
  (\<open>KernelAnswers\<close>: the new \<open>peek_errno\<close>, \<open>poke_errno\<close>, \<open>poke_partial\<close>,
  \<open>read_errno\<close> and \<open>pokeuser_errno\<close>).
\<close>

datatype command =
    CreateBreakpointSite virt_addr bool bool
  | EnableBreakpointSite nat
  | DisableBreakpointSite nat
  | RemoveBreakpointSite nat
  | CreateWatchpoint virt_addr stoppoint_mode nat
  | EnableWatchpoint nat
  | DisableWatchpoint nat
  | RemoveWatchpoint nat
  | KernelAnswers "virt_addr \<Rightarrow> nat" "virt_addr \<Rightarrow> nat" "virt_addr \<Rightarrow> bool"
      "virt_addr \<Rightarrow> nat \<Rightarrow> nat" "nat \<Rightarrow> nat"

fun execute_command :: "command \<Rightarrow> debugger \<Rightarrow> debugger" where
  "execute_command (CreateBreakpointSite addr hardware internal) d =
     snd (create_breakpoint_site d addr hardware internal)"
| "execute_command (EnableBreakpointSite k) d = snd (enable_breakpoint_site d k)"
| "execute_command (DisableBreakpointSite k) d = snd (disable_breakpoint_site d k)"
| "execute_command (RemoveBreakpointSite k) d = snd (remove_breakpoint_site d k)"
| "execute_command (CreateWatchpoint addr mode sz) d = snd (create_watchpoint d addr mode sz)"
| "execute_command (EnableWatchpoint k) d = snd (enable_watchpoint d k)"
| "execute_command (DisableWatchpoint k) d = snd (disable_watchpoint d k)"
| "execute_command (RemoveWatchpoint k) d = snd (remove_watchpoint d k)"
| "execute_command (KernelAnswers pe po pp re ue) d =
     d\<lparr>proc := (proc d)\<lparr>peek_errno := pe, poke_errno := po, poke_partial := pp,
                          read_errno := re, pokeuser_errno := ue\<rparr>\<rparr>"

definition run :: "command list \<Rightarrow> debugger \<Rightarrow> debugger" where
  "run commands d = fold execute_command commands d"

text \<open>The debugger right after launch: counters at 0, no stop points.\<close>

definition initial_debugger :: "process \<Rightarrow> debugger" where
  "initial_debugger p =
     \<lparr>site_ids = 0, watchpoint_ids = 0,
      proc = p\<lparr>breakpoint_sites := [], watchpoints := []\<rparr>\<rparr>"

text \<open>
  The slots of the hardware stop points that are enabled: hardware breakpoint sites
  first, then watchpoints.
\<close>

definition enabled_hardware_slots :: "process \<Rightarrow> int list" where
  "enabled_hardware_slots p =
     map hardware_register_index
       (filter (\<lambda>s. is_hardware s \<and> is_enabled s) (breakpoint_sites p))
     @ map wp_hardware_register_index (filter wp_is_enabled (watchpoints p))"

text \<open>
  What the proofs keep track of. A list of slots is in order when no slot occurs twice
  and each is one of the four and in use according to DR7; a debugger is in order when
  the slots of its enabled hardware stop points are, and every watchpoint has a size
  that \<open>create_watchpoint\<close> accepts.
\<close>

definition slots_ok :: "int list \<Rightarrow> u64 \<Rightarrow> bool" where
  "slots_ok slots control \<longleftrightarrow>
     distinct slots \<and> (\<forall>i \<in> set slots. 0 \<le> i \<and> i < 4 \<and> slot_in_use control (nat i))"

definition site_slot :: "breakpoint_site \<Rightarrow> int list" where
  "site_slot s = (if is_hardware s \<and> is_enabled s then [hardware_register_index s] else [])"

definition watchpoint_slot :: "watchpoint \<Rightarrow> int list" where
  "watchpoint_slot w = (if wp_is_enabled w then [wp_hardware_register_index w] else [])"

definition debugger_ok :: "debugger \<Rightarrow> bool" where
  "debugger_ok d \<longleftrightarrow>
     slots_ok (enabled_hardware_slots (proc d)) (debug_regs (proc d) 7)
     \<and> (\<forall>w \<in> set (watchpoints (proc d)). wp_size w \<in> {1, 2, 4, 8})"

text \<open>
  The tracee's memory as the breakpoint sites have patched it, against the memory
  \<open>original\<close> before any site was enabled: the byte at the address of an enabled
  software site is \<^verbatim>\<open>0xcc\<close> and the site has saved the original byte; every other byte
  is the original one; and no two sites share an address.
\<close>

definition installed :: "(virt_addr \<Rightarrow> byte) \<Rightarrow> process \<Rightarrow> breakpoint_site \<Rightarrow> bool" where
  "installed original p s \<longleftrightarrow>
     (if \<not> is_hardware s \<and> is_enabled s
      then tracee_memory p (address s) = 0xcc \<and> saved_data s = original (address s)
      else tracee_memory p (address s) = original (address s))"


text \<open>
  A reference to a hardware stop point of either collection, with \<^verbatim>\<open>enable()\<close> and
  \<^verbatim>\<open>disable()\<close> through it.
\<close>

datatype stoppoint_ref = SiteRef nat | WatchpointRef nat

fun enable_stoppoint :: "debugger \<Rightarrow> stoppoint_ref \<Rightarrow> (error + unit) \<times> debugger" where
  "enable_stoppoint d (SiteRef k) = enable_breakpoint_site d k"
| "enable_stoppoint d (WatchpointRef k) = enable_watchpoint d k"

fun disable_stoppoint :: "debugger \<Rightarrow> stoppoint_ref \<Rightarrow> (error + unit) \<times> debugger" where
  "disable_stoppoint d (SiteRef k) = disable_breakpoint_site d k"
| "disable_stoppoint d (WatchpointRef k) = disable_watchpoint d k"

fun is_hardware_stoppoint :: "debugger \<Rightarrow> stoppoint_ref \<Rightarrow> bool" where
  "is_hardware_stoppoint d (SiteRef k) =
     (k < length (breakpoint_sites (proc d)) \<and> is_hardware (breakpoint_sites (proc d) ! k))"
| "is_hardware_stoppoint d (WatchpointRef k) = (k < length (watchpoints (proc d)))"

fun stoppoint_enabled :: "debugger \<Rightarrow> stoppoint_ref \<Rightarrow> bool" where
  "stoppoint_enabled d (SiteRef k) = is_enabled (breakpoint_sites (proc d) ! k)"
| "stoppoint_enabled d (WatchpointRef k) = wp_is_enabled (watchpoints (proc d) ! k)"

section \<open>The state of the process\<close>

















section \<open>A tracee to run the definitions on\<close>

text \<open>
  A stopped tracee whose memory holds, at every address, the low byte of the address,
  except for a \<^verbatim>\<open>0xcc\<close> at \<^verbatim>\<open>0x401040\<close>; every kernel request succeeds, the
  debug registers are zero and there are no stop points yet.
\<close>

definition example_process :: process where
  "example_process =
     \<lparr>pid = 4321, terminate_on_end = True, state = stopped, is_attached = True,
      debug_regs = (\<lambda>i. 0), breakpoint_sites = [], watchpoints = [],
      tracee_memory = (\<lambda>a. if a = 0x401040 then 0xcc else ucast a),
      peek_errno = (\<lambda>a. 0), poke_errno = (\<lambda>a. 0), poke_partial = (\<lambda>a. False),
      read_errno = (\<lambda>a n. 0), pokeuser_errno = (\<lambda>i. 0), ptrace_calls = [],
      torn_writes = [], state_history = []\<rparr>"

text \<open>The same tracee when the kernel refuses \<^verbatim>\<open>PTRACE_POKEDATA\<close> with \<^verbatim>\<open>EIO\<close> (5).\<close>

definition example_process_poke_fails :: process where
  "example_process_poke_fails = example_process\<lparr>poke_errno := (\<lambda>a. 5)\<rparr>"

text \<open>
  The same tracee when the kernel refuses every write to the user area with
  \<^verbatim>\<open>ESRCH\<close> (3).
\<close>

definition example_process_pokeuser_fails :: process where
  "example_process_pokeuser_fails = example_process\<lparr>pokeuser_errno := (\<lambda>i. 3)\<rparr>"

text \<open>A disabled software site at \<^verbatim>\<open>0x401030\<close>, as the constructor builds it.\<close>

definition example_site :: breakpoint_site where
  "example_site = fst (new_breakpoint_site 0 0x401030 False False)"

text \<open>Hardware operations that always throw, for running software sites.\<close>

definition no_set_hardware_breakpoint :: set_hardware_breakpoint_fn where
  "no_set_hardware_breakpoint p i a = (Inl (send ''no hardware breakpoints''), p)"

definition no_clear_hardware_stoppoint :: clear_hardware_stoppoint_fn where
  "no_clear_hardware_stoppoint p i = (Inl (send ''no hardware breakpoints''), p)"

text \<open>The site and the tracee after \<^verbatim>\<open>enable()\<close> has patched the tracee.\<close>

definition example_enabled_site :: breakpoint_site where
  "example_enabled_site =
     fst (snd (enable no_set_hardware_breakpoint example_site example_process))"

definition example_patched_process :: process where
  "example_patched_process =
     snd (snd (enable no_set_hardware_breakpoint example_site example_process))"




text \<open>
  A debugger on the example tracee with one software breakpoint site and one
  watchpoint of four bytes.
\<close>

definition example_debugger :: debugger where
  "example_debugger =
     run [CreateBreakpointSite 0x401030 False False, CreateWatchpoint 0x402000 mode_write 4]
       (initial_debugger example_process)"

text \<open>
  Scenario F of the spec: five breakpoint sites, four of them hardware, and a watchpoint;
  three hardware sites, the software site and the watchpoint are enabled, so that all
  four slots are taken and the hardware site at position 4 is left disabled.
\<close>

definition example_full_debugger :: debugger where
  "example_full_debugger =
     run [CreateBreakpointSite 0x401000 True False, CreateBreakpointSite 0x401010 True False,
          CreateBreakpointSite 0x401020 True False, CreateBreakpointSite 0x401030 False False,
          CreateBreakpointSite 0x401050 True False, CreateWatchpoint 0x402000 mode_write 4,
          EnableBreakpointSite 0, EnableBreakpointSite 1, EnableBreakpointSite 2,
          EnableBreakpointSite 3, EnableWatchpoint 0]
       (initial_debugger example_process)"

section \<open>Words and bytes\<close>

lemma bit_255_int: "bit (255 :: int) n = (n < 8)"
proof -
  have "bit (mask 8 :: int) n = (n < 8)"
    by (simp only: bit_mask_iff) auto
  moreover have "(mask 8 :: int) = 255"
    by (simp add: mask_eq_exp_minus_1)
  ultimately show ?thesis by (simp only:)
qed

lemma bit_le_word:
  "bit (le_word bs) n = (n < 64 \<and> n div 8 < length bs \<and> bit (bs ! (n div 8)) (n mod 8))"
proof (induction bs arbitrary: n)
  case Nil
  then show ?case by simp
next
  case (Cons b bs)
  show ?case
  proof (cases "n < 8")
    case True
    then show ?thesis by (simp add: bit_simps)
  next
    case False
    then have "n div 8 = Suc ((n - 8) div 8)" "n mod 8 = (n - 8) mod 8"
      by (simp_all add: le_div_geq le_mod_geq)
    with False Cons.IH [of "n - 8"] show ?thesis
      by (auto simp add: bit_simps dest: bit_imp_le_length)
  qed
qed

lemma byte_at_le_word:
  "i < length bs \<Longrightarrow> length bs \<le> 8 \<Longrightarrow> byte_at (le_word bs) i = bs ! i"
  by (rule bit_eqI) (auto simp add: byte_at_def bit_simps bit_le_word dest: bit_imp_le_length)

lemma le_word_bytes: "le_word (map (byte_at w) [0..<8]) = w"
proof (rule bit_eqI)
  fix n
  assume "possible_bit TYPE(u64) n"
  then have n: "n < 64" by simp
  then have d: "n div 8 < 8" by (simp add: less_mult_imp_div_less)
  have r: "8 * (n div 8) + n mod 8 = n" by simp
  have "bit (le_word (map (byte_at w) [0..<8])) n
          = (n < 64 \<and> n div 8 < 8 \<and> bit (byte_at w (n div 8)) (n mod 8))"
    using d by (simp add: bit_le_word)
  also have "\<dots> = (n < 64 \<and> n div 8 < 8 \<and> bit w (8 * (n div 8) + n mod 8))"
    by (auto simp add: byte_at_def bit_simps)
  also have "\<dots> = bit w n"
    using n d by (simp only: r) simp
  finally show "bit (le_word (map (byte_at w) [0..<8])) n = bit w n" .
qed

lemma byte_at_patch_0: "byte_at ((w AND - 256) OR ucast b) 0 = b"
  by (rule bit_eqI) (auto simp add: byte_at_def bit_simps bit_255_int dest: bit_imp_le_length)

lemma byte_at_patch_Suc: "0 < i \<Longrightarrow> byte_at ((w AND - 256) OR ucast (b :: byte)) i = byte_at w i"
  by (rule bit_eqI) (auto simp add: byte_at_def bit_simps bit_255_int dest: bit_imp_le_length)

lemma low_byte_eq: "ucast ((w :: u64) AND 255) = byte_at w 0"
  by (rule bit_eqI) (auto simp add: byte_at_def bit_simps bit_255_int)

lemma byte_at_peek_word: "i < 8 \<Longrightarrow> byte_at (peek_word m a) i = m (a + of_nat i)"
  by (simp add: peek_word_def byte_at_le_word)

lemma offset_lt_8: "i < 8 \<Longrightarrow> (of_nat i :: u64) < 8 \<and> unat (of_nat i :: u64) = i"
  by (simp add: word_less_nat_alt unat_of_nat)

lemma peek_poke_word: "peek_word (poke_word m a w) a = w"
proof -
  have "map (\<lambda>i. poke_word m a w (a + of_nat i)) [0..<8] = map (byte_at w) [0..<8]"
    by (rule map_cong) (simp_all add: poke_word_def offset_lt_8)
  then show ?thesis
    by (simp only: peek_word_def le_word_bytes)
qed

lemma poke_patched_word:
  "poke_word m a ((peek_word m a AND - 256) OR ucast b) = m(a := b)"
proof
  fix x
  let ?w = "(peek_word m a AND - 256) OR ucast b"
  show "poke_word m a ?w x = (m(a := b)) x"
  proof (cases "x - a < 8")
    case False
    then have "x \<noteq> a" by auto
    with False show ?thesis by (simp add: poke_word_def)
  next
    case True
    define k where "k = unat (x - a)"
    from True have k: "k < 8" by (simp add: k_def word_less_nat_alt)
    have x: "x = a + of_nat k" by (simp add: k_def)
    show ?thesis
    proof (cases "k = 0")
      case True
      with x have "x = a" by simp
      then show ?thesis by (simp add: poke_word_def byte_at_patch_0)
    next
      case False
      then have "x - a \<noteq> 0" by (simp add: k_def unat_eq_0)
      then have "x \<noteq> a" by simp
      moreover from False k have "byte_at ?w k = m x"
        by (simp add: byte_at_patch_Suc byte_at_peek_word x)
      ultimately show ?thesis using True by (simp add: poke_word_def k_def)
    qed
  qed
qed

lemma poke_int3: "poke_word m a ((peek_word m a AND - 256) OR 204) = m(a := 204)"
  using poke_patched_word [of m a 204] by simp

lemma low_byte_peek_word: "ucast (peek_word m a AND 255) = m a"
  using byte_at_peek_word [of 0 m a] by (simp add: low_byte_eq)

lemma first_page_bytes_less: "first_page_bytes a < 8"
  by (simp add: first_page_bytes_def Let_def)

lemma poke_bytes_patched:
  assumes "0 < n" and "n \<le> 8"
  shows "poke_bytes n m a ((peek_word m a AND - 256) OR ucast b) = m(a := b)"
proof
  fix x
  let ?w = "(peek_word m a AND - 256) OR ucast b"
  define k where "k = unat (x - a)"
  have x: "x = a + of_nat k" by (simp add: k_def)
  show "poke_bytes n m a ?w x = (m(a := b)) x"
  proof (cases "k = 0")
    case True
    with x have "x = a" by simp
    with assms(1) show ?thesis by (simp add: poke_bytes_def byte_at_patch_0)
  next
    case False
    then have "x - a \<noteq> 0" by (simp add: k_def unat_eq_0)
    then have ne: "x \<noteq> a" by simp
    show ?thesis
    proof (cases "k < n")
      case True
      with assms(2) have "k < 8" by simp
      with False have "byte_at ?w k = m x"
        by (simp add: byte_at_patch_Suc byte_at_peek_word x)
      with True ne show ?thesis by (simp add: poke_bytes_def k_def)
    next
      case False
      with ne show ?thesis by (simp add: poke_bytes_def k_def)
    qed
  qed
qed

lemma poke_first_page_int3:
  "0 < first_page_bytes a \<Longrightarrow>
   poke_bytes (first_page_bytes a) m a ((peek_word m a AND - 256) OR 204) = m(a := 204)"
  using poke_bytes_patched [of "first_page_bytes a" m a 204] first_page_bytes_less [of a]
  by simp

lemma poke_first_page_patched:
  "0 < first_page_bytes a \<Longrightarrow>
   poke_bytes (first_page_bytes a) m a ((peek_word m a AND - 256) OR ucast b) = m(a := b)"
  using poke_bytes_patched [of "first_page_bytes a" m a b] first_page_bytes_less [of a]
  by simp


section \<open>What one call does\<close>

lemma enable_enabled: "is_enabled s \<Longrightarrow> enable f s p = (Inr (), s, p)"
  by (simp add: enable_def)

lemma disable_disabled: "\<not> is_enabled s \<Longrightarrow> disable g s p = (Inr (), s, p)"
  by (simp add: disable_def)

lemma enable_peek_fails:
  "\<not> is_enabled s \<Longrightarrow> \<not> is_hardware s \<Longrightarrow> peek_errno p (address s) \<noteq> 0 \<Longrightarrow>
   enable f s p =
     (Inl (send_errno ''Enabling breakpoint site failed'' (peek_errno p (address s))), s,
      p\<lparr>ptrace_calls := ptrace_calls p @ [PEEKDATA (address s)]\<rparr>)"
  by (simp add: enable_def ptrace_peekdata_def Let_def)

lemma enable_poke_fails:
  "\<not> is_enabled s \<Longrightarrow> \<not> is_hardware s \<Longrightarrow> peek_errno p (address s) = 0 \<Longrightarrow>
   poke_errno p (address s) \<noteq> 0 \<Longrightarrow>
   enable f s p =
     (Inl (send_errno ''Enabling breakpoing site failed'' (poke_errno p (address s))),
      s\<lparr>saved_data := tracee_memory p (address s)\<rparr>,
      if poke_partial p (address s) \<and> 0 < first_page_bytes (address s)
      then p\<lparr>ptrace_calls := ptrace_calls p @
           [PEEKDATA (address s),
            POKEDATA (address s) ((peek_word (tracee_memory p) (address s) AND NOT 0xff) OR 0xcc)],
             tracee_memory := (tracee_memory p)(address s := 0xcc),
             torn_writes := torn_writes p @ [address s]\<rparr>
      else p\<lparr>ptrace_calls := ptrace_calls p @
           [PEEKDATA (address s),
            POKEDATA (address s) ((peek_word (tracee_memory p) (address s) AND NOT 0xff) OR 0xcc)]\<rparr>)"
  by (simp add: enable_def ptrace_peekdata_def ptrace_pokedata_def Let_def low_byte_peek_word
      poke_first_page_int3)

lemma enable_software_ok:
  "\<not> is_enabled s \<Longrightarrow> \<not> is_hardware s \<Longrightarrow> peek_errno p (address s) = 0 \<Longrightarrow>
   poke_errno p (address s) = 0 \<Longrightarrow>
   enable f s p =
     (Inr (), s\<lparr>saved_data := tracee_memory p (address s), is_enabled := True\<rparr>,
      p\<lparr>ptrace_calls := ptrace_calls p @
           [PEEKDATA (address s),
            POKEDATA (address s) ((peek_word (tracee_memory p) (address s) AND NOT 0xff) OR 0xcc)],
        tracee_memory := (tracee_memory p)(address s := 0xcc)\<rparr>)"
  by (simp add: enable_def ptrace_peekdata_def ptrace_pokedata_def Let_def low_byte_peek_word poke_int3)

lemma disable_peek_fails:
  "is_enabled s \<Longrightarrow> \<not> is_hardware s \<Longrightarrow> peek_errno p (address s) \<noteq> 0 \<Longrightarrow>
   disable g s p =
     (Inl (send_errno ''Disabling breakpoint site failed'' (peek_errno p (address s))), s,
      p\<lparr>ptrace_calls := ptrace_calls p @ [PEEKDATA (address s)]\<rparr>)"
  by (simp add: disable_def ptrace_peekdata_def Let_def)

lemma disable_poke_fails:
  "is_enabled s \<Longrightarrow> \<not> is_hardware s \<Longrightarrow> peek_errno p (address s) = 0 \<Longrightarrow>
   poke_errno p (address s) \<noteq> 0 \<Longrightarrow>
   disable g s p =
     (Inl (send_errno ''Disabling breakpoint site failed'' (poke_errno p (address s))), s,
      if poke_partial p (address s) \<and> 0 < first_page_bytes (address s)
      then p\<lparr>ptrace_calls := ptrace_calls p @
           [PEEKDATA (address s),
            POKEDATA (address s)
              ((peek_word (tracee_memory p) (address s) AND NOT 0xff) OR ucast (saved_data s))],
             tracee_memory := (tracee_memory p)(address s := saved_data s),
             torn_writes := torn_writes p @ [address s]\<rparr>
      else p\<lparr>ptrace_calls := ptrace_calls p @
           [PEEKDATA (address s),
            POKEDATA (address s)
              ((peek_word (tracee_memory p) (address s) AND NOT 0xff) OR ucast (saved_data s))]\<rparr>)"
  by (simp add: disable_def ptrace_peekdata_def ptrace_pokedata_def Let_def
      poke_first_page_patched)

lemma disable_software_ok:
  "is_enabled s \<Longrightarrow> \<not> is_hardware s \<Longrightarrow> peek_errno p (address s) = 0 \<Longrightarrow>
   poke_errno p (address s) = 0 \<Longrightarrow>
   disable g s p =
     (Inr (), s\<lparr>is_enabled := False\<rparr>,
      p\<lparr>ptrace_calls := ptrace_calls p @
           [PEEKDATA (address s),
            POKEDATA (address s)
              ((peek_word (tracee_memory p) (address s) AND NOT 0xff) OR ucast (saved_data s))],
        tracee_memory := (tracee_memory p)(address s := saved_data s)\<rparr>)"
  by (simp add: disable_def ptrace_peekdata_def ptrace_pokedata_def Let_def poke_patched_word)


section \<open>The example tracee, evaluated\<close>

lemma example_site_simps:
  "site_id example_site = 1" "address example_site = 0x401030" "\<not> is_enabled example_site"
  "saved_data example_site = 0" "\<not> is_hardware example_site" "\<not> is_internal example_site"
  by (simp_all add: example_site_def new_breakpoint_site_def get_next_id_def)

lemma example_process_simps:
  "peek_errno example_process a = 0" "poke_errno example_process a = 0"
  "\<not> poke_partial example_process a" "torn_writes example_process = []"
  "tracee_memory example_process = (\<lambda>a. if a = 0x401040 then 0xcc else ucast a)"
  "ptrace_calls example_process = []"
  by (simp_all add: example_process_def)

lemma example_enable:
  "enable f example_site example_process =
     (Inr (), example_site\<lparr>saved_data := 0x30, is_enabled := True\<rparr>,
      example_process\<lparr>ptrace_calls :=
          [PEEKDATA 0x401030,
           POKEDATA 0x401030 ((peek_word (tracee_memory example_process) 0x401030 AND NOT 0xff) OR 0xcc)],
        tracee_memory := (tracee_memory example_process)(0x401030 := 0xcc)\<rparr>)"
  using enable_software_ok [of example_site example_process f]
  by (simp add: example_site_simps example_process_simps)



lemma example_enabled_simps:
  "example_enabled_site = example_site\<lparr>saved_data := 0x30, is_enabled := True\<rparr>"
  "example_patched_process =
     example_process\<lparr>ptrace_calls :=
          [PEEKDATA 0x401030,
           POKEDATA 0x401030 ((peek_word (tracee_memory example_process) 0x401030 AND NOT 0xff) OR 0xcc)],
        tracee_memory := (tracee_memory example_process)(0x401030 := 0xcc)\<rparr>"
  by (simp_all add: example_enabled_site_def example_patched_process_def example_enable)

section \<open>Software breakpoints patch one byte\<close>

text \<open>
  C1. For a software site whose kernel requests succeed, \<^verbatim>\<open>enable()\<close> of the disabled
  site sends exactly one \<^verbatim>\<open>PTRACE_PEEKDATA\<close> and one \<^verbatim>\<open>PTRACE_POKEDATA\<close> at the site's
  address, stores the low byte of the word read (the tracee's byte at the address) in
  \<open>saved_data\<close>, and writes back the word read with byte 0 replaced by \<^verbatim>\<open>0xcc\<close> and
  every other byte as it was: in the tracee's memory only the byte at the address
  changes. \<^verbatim>\<open>disable()\<close> of an enabled site reads the word and writes it back with byte
  0 replaced by \<open>saved_data\<close> and every other byte as it was.
\<close>

theorem software_site_patches_low_byte:
  "(\<not> is_hardware s \<and> \<not> is_enabled s \<and> peek_errno p (address s) = 0
      \<and> poke_errno p (address s) = 0 \<longrightarrow>
      (let a = address s; data = peek_word (tracee_memory p) a;
           data_with_int3 = (data AND NOT 0xff) OR 0xcc
       in enable f s p =
            (Inr (), s\<lparr>saved_data := ucast (data AND 0xff), is_enabled := True\<rparr>,
             p\<lparr>ptrace_calls := ptrace_calls p @ [PEEKDATA a, POKEDATA a data_with_int3],
               tracee_memory := poke_word (tracee_memory p) a data_with_int3\<rparr>)
          \<and> ucast (data AND 0xff) = tracee_memory p a
          \<and> byte_at data_with_int3 0 = 0xcc
          \<and> (\<forall>i. 0 < i \<longrightarrow> byte_at data_with_int3 i = byte_at data i)
          \<and> poke_word (tracee_memory p) a data_with_int3 = (tracee_memory p)(a := 0xcc)))
   \<and> (\<not> is_hardware s' \<and> is_enabled s' \<and> peek_errno p' (address s') = 0
      \<and> poke_errno p' (address s') = 0 \<longrightarrow>
      (let a = address s'; data = peek_word (tracee_memory p') a;
           restored_data = (data AND NOT 0xff) OR ucast (saved_data s')
       in disable g s' p' =
            (Inr (), s'\<lparr>is_enabled := False\<rparr>,
             p'\<lparr>ptrace_calls := ptrace_calls p' @ [PEEKDATA a, POKEDATA a restored_data],
                tracee_memory := poke_word (tracee_memory p') a restored_data\<rparr>)
          \<and> byte_at restored_data 0 = saved_data s'
          \<and> (\<forall>i. 0 < i \<longrightarrow> byte_at restored_data i = byte_at data i)
          \<and> poke_word (tracee_memory p') a restored_data
                = (tracee_memory p')(a := saved_data s')))"
proof (intro conjI impI)
  assume "\<not> is_hardware s \<and> \<not> is_enabled s \<and> peek_errno p (address s) = 0
      \<and> poke_errno p (address s) = 0"
  then show "let a = address s; data = peek_word (tracee_memory p) a;
           data_with_int3 = (data AND NOT 0xff) OR 0xcc
       in enable f s p =
            (Inr (), s\<lparr>saved_data := ucast (data AND 0xff), is_enabled := True\<rparr>,
             p\<lparr>ptrace_calls := ptrace_calls p @ [PEEKDATA a, POKEDATA a data_with_int3],
               tracee_memory := poke_word (tracee_memory p) a data_with_int3\<rparr>)
          \<and> ucast (data AND 0xff) = tracee_memory p a
          \<and> byte_at data_with_int3 0 = 0xcc
          \<and> (\<forall>i. 0 < i \<longrightarrow> byte_at data_with_int3 i = byte_at data i)
          \<and> poke_word (tracee_memory p) a data_with_int3 = (tracee_memory p)(a := 0xcc)"
    using byte_at_patch_0 [of "peek_word (tracee_memory p) (address s)" "0xcc"]
      byte_at_patch_Suc [of _ "peek_word (tracee_memory p) (address s)" "0xcc"]
    by (simp add: Let_def enable_software_ok low_byte_peek_word poke_int3)
next
  assume "\<not> is_hardware s' \<and> is_enabled s' \<and> peek_errno p' (address s') = 0
      \<and> poke_errno p' (address s') = 0"
  then show "let a = address s'; data = peek_word (tracee_memory p') a;
           restored_data = (data AND NOT 0xff) OR ucast (saved_data s')
       in disable g s' p' =
            (Inr (), s'\<lparr>is_enabled := False\<rparr>,
             p'\<lparr>ptrace_calls := ptrace_calls p' @ [PEEKDATA a, POKEDATA a restored_data],
                tracee_memory := poke_word (tracee_memory p') a restored_data\<rparr>)
          \<and> byte_at restored_data 0 = saved_data s'
          \<and> (\<forall>i. 0 < i \<longrightarrow> byte_at restored_data i = byte_at data i)
          \<and> poke_word (tracee_memory p') a restored_data
                = (tracee_memory p')(a := saved_data s')"
    by (simp add: Let_def disable_software_ok poke_patched_word byte_at_patch_0 byte_at_patch_Suc)
qed

theorem software_site_patches_low_byte_witness:
  "\<not> is_hardware example_site \<and> \<not> is_enabled example_site
   \<and> peek_errno example_process (address example_site) = 0
   \<and> poke_errno example_process (address example_site) = 0
   \<and> \<not> is_hardware example_enabled_site \<and> is_enabled example_enabled_site
   \<and> peek_errno example_patched_process (address example_enabled_site) = 0
   \<and> poke_errno example_patched_process (address example_enabled_site) = 0
   \<and> saved_data (fst (snd (enable no_set_hardware_breakpoint example_site example_process))) = 0x30
   \<and> tracee_memory (snd (snd (enable no_set_hardware_breakpoint example_site example_process)))
       = (tracee_memory example_process)(0x401030 := 0xcc)
   \<and> tracee_memory (snd (snd (disable no_clear_hardware_stoppoint example_enabled_site
         example_patched_process))) = tracee_memory example_process"
  using software_site_patches_low_byte [where s = example_site and p = example_process
      and s' = example_enabled_site and p' = example_patched_process
      and f = no_set_hardware_breakpoint and g = no_clear_hardware_stoppoint]
  by (simp add: Let_def example_site_simps example_process_simps example_enabled_simps fun_eq_iff)

section \<open>A failed \<^verbatim>\<open>enable()\<close>\<close>

text \<open>
  C3, as amended. When a kernel request of \<^verbatim>\<open>enable()\<close> on a disabled software site
  fails, \<^verbatim>\<open>enable()\<close> throws an error carrying the errno of the failed request, the
  site stays disabled, and every field of the site other than \<open>saved_data\<close> is
  unchanged; when the failed request is the read, the site is unchanged altogether;
  when the read succeeds and the write fails, \<open>saved_data\<close> holds the tracee's byte at
  the address. When the hardware allocation of a hardware site throws, \<^verbatim>\<open>enable()\<close>
  throws the same error and the site is unchanged; with the allocator as the spec
  describes it, a refused register write makes that an error carrying the errno of the
  refused write.
\<close>

theorem enable_failure_keeps_site_disabled:
  "(\<not> is_hardware s \<and> \<not> is_enabled s
      \<and> (peek_errno p (address s) \<noteq> 0 \<or> poke_errno p (address s) \<noteq> 0) \<longrightarrow>
      (let a = address s; r = enable f s p; s' = fst (snd r)
       in fst r = Inl (if peek_errno p a \<noteq> 0
                       then send_errno ''Enabling breakpoint site failed'' (peek_errno p a)
                       else send_errno ''Enabling breakpoing site failed'' (poke_errno p a))
          \<and> \<not> is_enabled s'
          \<and> s' = s\<lparr>saved_data := saved_data s'\<rparr>
          \<and> (peek_errno p a \<noteq> 0 \<longrightarrow> s' = s)
          \<and> (peek_errno p a = 0 \<longrightarrow> saved_data s' = tracee_memory p a)))
   \<and> (is_hardware h \<and> \<not> is_enabled h \<and> f q (site_id h) (address h) = (Inl e, q') \<longrightarrow>
        enable f h q = (Inl e, h, q'))
   \<and> (is_hardware h \<and> \<not> is_enabled h \<and> find_free_slot (debug_regs q 7) = Some slot
        \<and> (pokeuser_errno q slot \<noteq> 0 \<or> pokeuser_errno q 7 \<noteq> 0) \<longrightarrow>
        enable set_hardware_breakpoint h q
          = (Inl (send_errno ''Could not write to user area''
                    (if pokeuser_errno q slot \<noteq> 0 then pokeuser_errno q slot
                     else pokeuser_errno q 7)), h, q))"
proof (intro conjI impI)
  assume a: "\<not> is_hardware s \<and> \<not> is_enabled s
      \<and> (peek_errno p (address s) \<noteq> 0 \<or> poke_errno p (address s) \<noteq> 0)"
  show "let a = address s; r = enable f s p; s' = fst (snd r)
       in fst r = Inl (if peek_errno p a \<noteq> 0
                       then send_errno ''Enabling breakpoint site failed'' (peek_errno p a)
                       else send_errno ''Enabling breakpoing site failed'' (poke_errno p a))
          \<and> \<not> is_enabled s'
          \<and> s' = s\<lparr>saved_data := saved_data s'\<rparr>
          \<and> (peek_errno p a \<noteq> 0 \<longrightarrow> s' = s)
          \<and> (peek_errno p a = 0 \<longrightarrow> saved_data s' = tracee_memory p a)"
  proof (cases "peek_errno p (address s) = 0")
    case True
    with a show ?thesis by (simp add: Let_def enable_poke_fails)
  next
    case False
    with a show ?thesis by (simp add: Let_def enable_peek_fails)
  qed
next
  assume "is_hardware h \<and> \<not> is_enabled h \<and> f q (site_id h) (address h) = (Inl e, q')"
  then show "enable f h q = (Inl e, h, q')"
    by (simp add: enable_def)
next
  assume "is_hardware h \<and> \<not> is_enabled h \<and> find_free_slot (debug_regs q 7) = Some slot
        \<and> (pokeuser_errno q slot \<noteq> 0 \<or> pokeuser_errno q 7 \<noteq> 0)"
  then show "enable set_hardware_breakpoint h q
          = (Inl (send_errno ''Could not write to user area''
                    (if pokeuser_errno q slot \<noteq> 0 then pokeuser_errno q slot
                     else pokeuser_errno q 7)), h, q)"
    by (auto simp add: enable_def set_hardware_breakpoint_def set_hardware_stoppoint_def
        encode_size_def Let_def)
qed

lemma example_poke_fails_simps:
  "peek_errno example_process_poke_fails a = 0" "poke_errno example_process_poke_fails a = 5"
  "tracee_memory example_process_poke_fails = tracee_memory example_process"
  "\<not> poke_partial example_process_poke_fails a"
  by (simp_all add: example_process_poke_fails_def example_process_def)

lemma example_pokeuser_fails_simps:
  "find_free_slot (debug_regs example_process_pokeuser_fails 7) = Some 0"
  "pokeuser_errno example_process_pokeuser_fails i = 3"
  by (simp_all add: example_process_pokeuser_fails_def example_process_def find_free_slot_def
      slot_in_use_def)

theorem enable_failure_keeps_site_disabled_witness:
  "\<not> is_hardware example_site \<and> \<not> is_enabled example_site
   \<and> peek_errno example_process_poke_fails (address example_site) = 0
   \<and> poke_errno example_process_poke_fails (address example_site) = 5
   \<and> is_hardware (example_site\<lparr>is_hardware := True\<rparr>)
   \<and> \<not> is_enabled (example_site\<lparr>is_hardware := True\<rparr>)
   \<and> find_free_slot (debug_regs example_process_pokeuser_fails 7) = Some 0
   \<and> pokeuser_errno example_process_pokeuser_fails 0 = 3
   \<and> set_hardware_breakpoint example_process_pokeuser_fails 1 0x401030
        = (Inl (send_errno ''Could not write to user area'' 3), example_process_pokeuser_fails)
   \<and> fst (enable set_hardware_breakpoint example_site example_process_poke_fails)
        = Inl (send_errno ''Enabling breakpoing site failed'' 5)
   \<and> \<not> is_enabled (fst (snd (enable set_hardware_breakpoint example_site
           example_process_poke_fails)))
   \<and> saved_data (fst (snd (enable set_hardware_breakpoint example_site
           example_process_poke_fails))) = 0x30
   \<and> enable set_hardware_breakpoint (example_site\<lparr>is_hardware := True\<rparr>)
         example_process_pokeuser_fails
        = (Inl (send_errno ''Could not write to user area'' 3),
           example_site\<lparr>is_hardware := True\<rparr>, example_process_pokeuser_fails)"
proof -
  have h: "set_hardware_breakpoint example_process_pokeuser_fails 1 0x401030
        = (Inl (send_errno ''Could not write to user area'' 3), example_process_pokeuser_fails)"
    by (simp add: set_hardware_breakpoint_def set_hardware_stoppoint_def encode_size_def
        example_pokeuser_fails_simps)
  have m: "tracee_memory example_process 0x401030 = 0x30"
    by (simp add: example_process_def)
  from h m show ?thesis
    using enable_failure_keeps_site_disabled [where s = example_site
      and p = example_process_poke_fails and f = set_hardware_breakpoint
      and h = "example_site\<lparr>is_hardware := True\<rparr>" and q = example_process_pokeuser_fails
      and q' = example_process_pokeuser_fails
      and e = "send_errno ''Could not write to user area'' 3" and slot = 0]
    by (simp add: Let_def example_site_simps example_poke_fails_simps
        example_pokeuser_fails_simps)
qed

text \<open>
  C3, as stated, fails: \<^verbatim>\<open>saved_data_\<close> is assigned between the two kernel requests.
  On the example tracee with a refused \<^verbatim>\<open>PTRACE_POKEDATA\<close>, \<^verbatim>\<open>enable()\<close> throws and
  \<open>saved_data\<close> of the site has changed from \<^verbatim>\<open>0x00\<close> to \<^verbatim>\<open>0x30\<close>.
\<close>

theorem failed_enable_changes_saved_data:
  "\<not> is_enabled example_site
   \<and> fst (enable no_set_hardware_breakpoint example_site example_process_poke_fails)
        = Inl (send_errno ''Enabling breakpoing site failed'' 5)
   \<and> fst (snd (enable no_set_hardware_breakpoint example_site example_process_poke_fails))
        \<noteq> example_site
   \<and> saved_data example_site = 0
   \<and> saved_data (fst (snd (enable no_set_hardware_breakpoint example_site
         example_process_poke_fails))) = 0x30"
proof -
  let ?r = "enable no_set_hardware_breakpoint example_site example_process_poke_fails"
  have e: "fst ?r = Inl (send_errno ''Enabling breakpoing site failed'' 5)"
    and s: "saved_data (fst (snd ?r)) = 0x30"
    using enable_poke_fails [of example_site example_process_poke_fails no_set_hardware_breakpoint]
    by (simp_all add: example_site_simps example_poke_fails_simps example_process_simps)
  have z: "saved_data example_site = 0"
    by (simp add: example_site_simps)
  from s z have "fst (snd ?r) \<noteq> example_site"
    by auto
  with e s z show ?thesis
    by (simp add: example_site_simps)
qed

section \<open>Idempotence\<close>

text \<open>
  C4. \<^verbatim>\<open>enable()\<close> on an enabled site and \<^verbatim>\<open>disable()\<close> on a disabled site return
  with the site and the process unchanged, the history of kernel requests included:
  no request is sent. Hence a second \<^verbatim>\<open>enable()\<close> after one that returned, and a
  second \<^verbatim>\<open>disable()\<close> after one that returned, change nothing.
\<close>

theorem enable_disable_idempotent:
  "(is_enabled e \<longrightarrow> enable f e p = (Inr (), e, p))
   \<and> (\<not> is_enabled d \<longrightarrow> disable g d q = (Inr (), d, q))
   \<and> (fst (enable f s1 p1) = Inr () \<longrightarrow>
        enable f (fst (snd (enable f s1 p1))) (snd (snd (enable f s1 p1)))
          = (Inr (), snd (enable f s1 p1)))
   \<and> (fst (disable g s2 p2) = Inr () \<longrightarrow>
        disable g (fst (snd (disable g s2 p2))) (snd (snd (disable g s2 p2)))
          = (Inr (), snd (disable g s2 p2)))"
proof (intro conjI impI)
  assume "fst (enable f s1 p1) = Inr ()"
  then have "is_enabled (fst (snd (enable f s1 p1)))"
    by (auto simp add: enable_def ptrace_peekdata_def ptrace_pokedata_def Let_def
        split: if_splits prod.splits sum.splits)
  then show "enable f (fst (snd (enable f s1 p1))) (snd (snd (enable f s1 p1)))
          = (Inr (), snd (enable f s1 p1))"
    by (simp add: enable_enabled)
next
  assume "fst (disable g s2 p2) = Inr ()"
  then have "\<not> is_enabled (fst (snd (disable g s2 p2)))"
    by (auto simp add: disable_def ptrace_peekdata_def ptrace_pokedata_def Let_def
        split: if_splits prod.splits sum.splits)
  then show "disable g (fst (snd (disable g s2 p2))) (snd (snd (disable g s2 p2)))
          = (Inr (), snd (disable g s2 p2))"
    by (simp add: disable_disabled)
qed (simp_all add: enable_enabled disable_disabled)


theorem enable_disable_idempotent_witness:
  "is_enabled example_enabled_site \<and> \<not> is_enabled example_site
   \<and> fst (enable no_set_hardware_breakpoint example_site example_process) = Inr ()
   \<and> fst (disable no_clear_hardware_stoppoint example_enabled_site example_patched_process)
        = Inr ()
   \<and> enable no_set_hardware_breakpoint example_enabled_site example_patched_process
        = (Inr (), example_enabled_site, example_patched_process)
   \<and> disable no_clear_hardware_stoppoint example_site example_process
        = (Inr (), example_site, example_process)
   \<and> enable no_set_hardware_breakpoint
         (fst (snd (enable no_set_hardware_breakpoint example_site example_process)))
         (snd (snd (enable no_set_hardware_breakpoint example_site example_process)))
        = (Inr (), example_enabled_site, example_patched_process)"
  using enable_disable_idempotent [where e = example_enabled_site
      and p = example_patched_process and d = example_site and q = example_process
      and ?s1.0 = example_site and ?p1.0 = example_process
      and ?s2.0 = example_enabled_site and ?p2.0 = example_patched_process
      and f = no_set_hardware_breakpoint and g = no_clear_hardware_stoppoint]
    disable_software_ok [of example_enabled_site example_patched_process
      no_clear_hardware_stoppoint]
  by (simp add: example_enable example_enabled_simps example_site_simps example_process_simps)

section \<open>A failed \<^verbatim>\<open>disable()\<close>\<close>

text \<open>
  C10. When the read or the write of \<^verbatim>\<open>disable()\<close> on an enabled software site
  fails, \<^verbatim>\<open>disable()\<close> throws an error carrying the (non-zero) errno of the failed
  request before it clears the flag: the site is unchanged, so it is still enabled
  with the same \<open>saved_data\<close>.
\<close>

theorem disable_failure_keeps_site_enabled:
  "is_enabled s \<Longrightarrow> \<not> is_hardware s \<Longrightarrow>
   peek_errno p (address s) \<noteq> 0 \<or> poke_errno p (address s) \<noteq> 0 \<Longrightarrow>
   (let a = address s; r = disable g s p;
        errno = (if peek_errno p a \<noteq> 0 then peek_errno p a else poke_errno p a)
    in fst r = Inl (send_errno ''Disabling breakpoint site failed'' errno) \<and> errno \<noteq> 0
       \<and> fst (snd r) = s \<and> is_enabled (fst (snd r)) \<and> saved_data (fst (snd r)) = saved_data s)"
  by (cases "peek_errno p (address s) = 0")
    (simp_all add: Let_def disable_peek_fails disable_poke_fails)

theorem disable_failure_keeps_site_enabled_witness:
  "is_enabled example_enabled_site \<and> \<not> is_hardware example_enabled_site
   \<and> peek_errno (example_patched_process\<lparr>poke_errno := (\<lambda>a. 5)\<rparr>)
          (address example_enabled_site) = 0
   \<and> poke_errno (example_patched_process\<lparr>poke_errno := (\<lambda>a. 5)\<rparr>)
          (address example_enabled_site) = 5
   \<and> fst (disable no_clear_hardware_stoppoint example_enabled_site
         (example_patched_process\<lparr>poke_errno := (\<lambda>a. 5)\<rparr>))
       = Inl (send_errno ''Disabling breakpoint site failed'' 5)
   \<and> fst (snd (disable no_clear_hardware_stoppoint example_enabled_site
         (example_patched_process\<lparr>poke_errno := (\<lambda>a. 5)\<rparr>))) = example_enabled_site
   \<and> saved_data example_enabled_site = 0x30"
  using disable_failure_keeps_site_enabled [of example_enabled_site
      "example_patched_process\<lparr>poke_errno := (\<lambda>a. 5)\<rparr>" no_clear_hardware_stoppoint]
  by (simp add: Let_def example_enabled_simps example_site_simps example_process_simps)

section \<open>Ids\<close>

lemma new_breakpoint_site_id:
  "new_breakpoint_site c a h i = (s, c') \<Longrightarrow>
   is_internal s = i \<and> (if i then site_id s = - 1 \<and> c' = c else site_id s = c + 1 \<and> c' = c + 1)"
  by (auto simp add: new_breakpoint_site_def get_next_id_def split: if_splits)

lemma construct_sites_ids:
  "construct_sites c rs = (ss, c') \<Longrightarrow>
   map site_id (filter (\<lambda>s. \<not> is_internal s) ss)
     = map (\<lambda>k. c + int k) [1..<Suc (length (filter (\<lambda>s. \<not> is_internal s) ss))]
   \<and> c' = c + int (length (filter (\<lambda>s. \<not> is_internal s) ss))
   \<and> (\<forall>s \<in> set ss. is_internal s \<longrightarrow> site_id s = - 1)"
proof (induction rs arbitrary: c ss c')
  case Nil
  then show ?case by simp
next
  case (Cons r rs)
  obtain a h i where r: "r = (a, h, i)" by (cases r)
  obtain s c1 where n: "new_breakpoint_site c a h i = (s, c1)"
    by (cases "new_breakpoint_site c a h i")
  obtain ss1 c2 where t: "construct_sites c1 rs = (ss1, c2)"
    by (cases "construct_sites c1 rs")
  from Cons.prems r n t have ss: "ss = s # ss1" and c': "c' = c2" by simp_all
  note ih = Cons.IH [OF t]
  note nb = new_breakpoint_site_id [OF n]
  let ?n = "length (filter (\<lambda>s. \<not> is_internal s) ss1)"
  show ?case
  proof (cases i)
    case True
    with ih nb ss c' show ?thesis by simp
  next
    case False
    have "map (\<lambda>k. c + int k) [1..<Suc (Suc ?n)]
        = (c + 1) # map (\<lambda>k. c + int k) (map Suc [1..<Suc ?n])"
      by (simp add: upt_conv_Cons map_Suc_upt del: upt_Suc)
    also have "\<dots> = (c + 1) # map (\<lambda>k. c + 1 + int k) [1..<Suc ?n]"
      by (simp add: algebra_simps)
    finally have "map (\<lambda>k. c + int k) [1..<Suc (Suc ?n)]
        = (c + 1) # map (\<lambda>k. c + 1 + int k) [1..<Suc ?n]" .
    with False ih nb ss c' show ?thesis by simp
  qed
qed

text \<open>
  C5, as amended. Construct any sequence of sites, starting with the program's id
  counter at 0. The ids of the sites that are not internal are 1, 2, 3, ... in the
  order of construction: each is positive and greater than every id handed out before,
  0 is never used, no two are equal, and the counter ends at their number. The counter
  is the one \<^verbatim>\<open>static\<close> of \<^verbatim>\<open>get_next_id\<close>, not a member of the process object. Every
  internal site has the id -1.
\<close>

theorem site_ids_allocation:
  "let sites = fst (construct_sites 0 rs);
       public = map site_id (filter (\<lambda>s. \<not> is_internal s) sites)
   in public = map int [1..<Suc (length public)]
      \<and> sorted_wrt (<) public \<and> distinct public \<and> (\<forall>i \<in> set public. 0 < i)
      \<and> (\<forall>s \<in> set sites. is_internal s \<longrightarrow> site_id s = - 1)
      \<and> snd (construct_sites 0 rs) = int (length public)"
proof -
  obtain ss c' where r: "construct_sites 0 rs = (ss, c')"
    by (cases "construct_sites 0 rs")
  let ?p = "map site_id (filter (\<lambda>s. \<not> is_internal s) ss)"
  from construct_sites_ids [OF r]
  have p: "?p = map int [1..<Suc (length ?p)]"
    and c: "c' = int (length ?p)"
    and i: "\<forall>s \<in> set ss. is_internal s \<longrightarrow> site_id s = - 1"
    by (simp_all del: upt_Suc)
  have s: "sorted_wrt (<) ?p"
    by (subst p) (simp add: sorted_wrt_map sorted_wrt_upt del: upt_Suc)
  have d: "distinct ?p"
    by (subst p) (simp add: distinct_map inj_on_def del: upt_Suc)
  have pos: "\<forall>i \<in> set ?p. 0 < i"
    by (subst p) auto
  show ?thesis
    unfolding Let_def r fst_conv snd_conv
    using p s d pos i c by (intro conjI)
qed

theorem site_ids_allocation_witness:
  "map site_id (fst (construct_sites 0
       [(0x401000, False, False), (0x401010, False, True), (0x401020, True, False),
        (0x401030, False, True)]))
     = [1, - 1, 2, - 1]
   \<and> snd (construct_sites 0
       [(0x401000, False, False), (0x401010, False, True), (0x401020, True, False),
        (0x401030, False, True)]) = 2"
  using site_ids_allocation [of "[(0x401000, False, False), (0x401010, False, True),
      (0x401020, True, False), (0x401030, False, True)]"]
  by (simp add: new_breakpoint_site_def get_next_id_def Let_def)

text \<open>
  C5, as stated, fails for internal sites: the constructor gives each of them the id
  -1, so the first and the second internal site share their id.
\<close>

theorem internal_sites_share_an_id:
  "is_internal (fst (construct_sites 0 [(0x401000, False, True), (0x401010, False, True)]) ! 0)
   \<and> is_internal (fst (construct_sites 0 [(0x401000, False, True), (0x401010, False, True)]) ! 1)
   \<and> site_id (fst (construct_sites 0 [(0x401000, False, True), (0x401010, False, True)]) ! 0)
       = - 1
   \<and> site_id (fst (construct_sites 0 [(0x401000, False, True), (0x401010, False, True)]) ! 1)
       = - 1"
  by (simp add: new_breakpoint_site_def)

section \<open>What the hardware operations leave alone\<close>

lemma set_hardware_stoppoint_frame:
  "set_hardware_stoppoint p a m sz = (r, p') \<Longrightarrow>
   breakpoint_sites p' = breakpoint_sites p \<and> watchpoints p' = watchpoints p
   \<and> pokeuser_errno p' = pokeuser_errno p \<and> read_errno p' = read_errno p
   \<and> tracee_memory p' = tracee_memory p \<and> state p' = state p
   \<and> torn_writes p' = torn_writes p"
  by (auto simp add: set_hardware_stoppoint_def Let_def split: option.splits if_splits)

lemma set_hardware_stoppoint_fails:
  "set_hardware_stoppoint p a m sz = (Inl e, p') \<Longrightarrow> p' = p"
  by (auto simp add: set_hardware_stoppoint_def Let_def split: option.splits if_splits)

lemma clear_hardware_stoppoint_frame:
  "clear_hardware_stoppoint p i = (r, p') \<Longrightarrow>
   breakpoint_sites p' = breakpoint_sites p \<and> watchpoints p' = watchpoints p
   \<and> pokeuser_errno p' = pokeuser_errno p \<and> read_errno p' = read_errno p
   \<and> tracee_memory p' = tracee_memory p \<and> state p' = state p
   \<and> torn_writes p' = torn_writes p"
  by (auto simp add: clear_hardware_stoppoint_def Let_def split: if_splits)

lemma clear_hardware_stoppoint_fails:
  "clear_hardware_stoppoint p i = (Inl e, p') \<Longrightarrow> p' = p"
  by (auto simp add: clear_hardware_stoppoint_def Let_def split: if_splits)

lemma enable_frame:
  assumes "enable set_hardware_breakpoint s p = (r, s', p')"
  shows "address s' = address s \<and> is_hardware s' = is_hardware s
    \<and> breakpoint_sites p' = breakpoint_sites p \<and> watchpoints p' = watchpoints p"
proof (cases "is_hardware s \<and> \<not> is_enabled s")
  case True
  obtain r1 p1 where h: "set_hardware_breakpoint p (site_id s) (address s) = (r1, p1)"
    by (cases "set_hardware_breakpoint p (site_id s) (address s)")
  then have "breakpoint_sites p1 = breakpoint_sites p" "watchpoints p1 = watchpoints p"
    by (simp_all add: set_hardware_breakpoint_def set_hardware_stoppoint_frame)
  with assms True h show ?thesis
    by (cases r1) (auto simp add: enable_def)
next
  case False
  with assms show ?thesis
    by (auto simp add: enable_def ptrace_peekdata_def ptrace_pokedata_def Let_def
        split: if_splits)
qed

lemma disable_frame:
  assumes "disable clear_hardware_stoppoint s p = (r, s', p')"
  shows "address s' = address s \<and> is_hardware s' = is_hardware s
    \<and> breakpoint_sites p' = breakpoint_sites p \<and> watchpoints p' = watchpoints p"
proof (cases "is_hardware s \<and> is_enabled s")
  case True
  obtain r1 p1 where h: "clear_hardware_stoppoint p (hardware_register_index s) = (r1, p1)"
    by (cases "clear_hardware_stoppoint p (hardware_register_index s)")
  then have "breakpoint_sites p1 = breakpoint_sites p" "watchpoints p1 = watchpoints p"
    by (simp_all add: clear_hardware_stoppoint_frame)
  with assms True h show ?thesis
    by (cases r1) (auto simp add: disable_def)
next
  case False
  with assms show ?thesis
    by (auto simp add: disable_def ptrace_peekdata_def ptrace_pokedata_def Let_def
        split: if_splits)
qed

lemma watchpoint_enable_frame:
  assumes "watchpoint_enable w p = (r, w', p')"
  shows "wp_address w' = wp_address w
    \<and> breakpoint_sites p' = breakpoint_sites p \<and> watchpoints p' = watchpoints p"
proof -
  obtain r1 p1 where h:
    "set_watchpoint p (wp_id w) (wp_address w) (wp_mode w) (wp_size w) = (r1, p1)"
    by (cases "set_watchpoint p (wp_id w) (wp_address w) (wp_mode w) (wp_size w)")
  then have "breakpoint_sites p1 = breakpoint_sites p" "watchpoints p1 = watchpoints p"
    by (simp_all add: set_watchpoint_def set_hardware_stoppoint_frame)
  with assms h show ?thesis
    by (cases r1) (auto simp add: watchpoint_enable_def split: if_splits option.splits)
qed

lemma watchpoint_disable_frame:
  assumes "watchpoint_disable w p = (r, w', p')"
  shows "wp_address w' = wp_address w
    \<and> breakpoint_sites p' = breakpoint_sites p \<and> watchpoints p' = watchpoints p"
proof -
  obtain r1 p1 where h: "clear_hardware_stoppoint p (wp_hardware_register_index w) = (r1, p1)"
    by (cases "clear_hardware_stoppoint p (wp_hardware_register_index w)")
  then have "breakpoint_sites p1 = breakpoint_sites p" "watchpoints p1 = watchpoints p"
    by (simp_all add: clear_hardware_stoppoint_frame)
  with assms h show ?thesis
    by (cases r1) (auto simp add: watchpoint_disable_def split: if_splits)
qed

section \<open>The collection of breakpoint sites\<close>

lemma map_update_same:
  "k < length xs \<Longrightarrow> f y = f (xs ! k) \<Longrightarrow> map f (xs[k := y]) = map f xs"
  by (simp add: map_update list_update_same_conv)

lemma distinct_map_remove_at:
  "distinct (map f xs) \<Longrightarrow> distinct (map f (remove_at k xs))"
proof (cases "k < length xs")
  case True
  assume "distinct (map f xs)"
  moreover from True have "xs = take k xs @ xs ! k # drop (Suc k) xs"
    by (rule id_take_nth_drop)
  ultimately have "distinct (map f (take k xs @ xs ! k # drop (Suc k) xs))"
    by simp
  then show ?thesis by (auto simp add: remove_at_def)
next
  case False
  assume "distinct (map f xs)"
  with False show ?thesis by (simp add: remove_at_def)
qed

lemma enable_breakpoint_site_addresses:
  "map address (breakpoint_sites (proc (snd (enable_breakpoint_site d k))))
     = map address (breakpoint_sites (proc d))"
proof (cases "length (breakpoint_sites (proc d)) \<le> k")
  case True
  then show ?thesis by (simp add: enable_breakpoint_site_def)
next
  case False
  obtain r s' p' where e:
    "enable set_hardware_breakpoint (breakpoint_sites (proc d) ! k) (proc d) = (r, s', p')"
    by (cases "enable set_hardware_breakpoint (breakpoint_sites (proc d) ! k) (proc d)")
  from enable_frame [OF e] False e show ?thesis
    by (simp add: enable_breakpoint_site_def map_update_same)
qed

lemma disable_breakpoint_site_addresses:
  "map address (breakpoint_sites (proc (snd (disable_breakpoint_site d k))))
     = map address (breakpoint_sites (proc d))"
proof (cases "length (breakpoint_sites (proc d)) \<le> k")
  case True
  then show ?thesis by (simp add: disable_breakpoint_site_def)
next
  case False
  obtain r s' p' where e:
    "disable clear_hardware_stoppoint (breakpoint_sites (proc d) ! k) (proc d) = (r, s', p')"
    by (cases "disable clear_hardware_stoppoint (breakpoint_sites (proc d) ! k) (proc d)")
  from disable_frame [OF e] False e show ?thesis
    by (simp add: disable_breakpoint_site_def map_update_same)
qed

lemma enable_watchpoint_sites:
  "breakpoint_sites (proc (snd (enable_watchpoint d k))) = breakpoint_sites (proc d)"
proof (cases "length (watchpoints (proc d)) \<le> k")
  case True
  then show ?thesis by (simp add: enable_watchpoint_def)
next
  case False
  obtain r w' p' where e: "watchpoint_enable (watchpoints (proc d) ! k) (proc d) = (r, w', p')"
    by (cases "watchpoint_enable (watchpoints (proc d) ! k) (proc d)")
  from watchpoint_enable_frame [OF e] False e show ?thesis
    by (simp add: enable_watchpoint_def)
qed

lemma disable_watchpoint_sites:
  "breakpoint_sites (proc (snd (disable_watchpoint d k))) = breakpoint_sites (proc d)"
proof (cases "length (watchpoints (proc d)) \<le> k")
  case True
  then show ?thesis by (simp add: disable_watchpoint_def)
next
  case False
  obtain r w' p' where e: "watchpoint_disable (watchpoints (proc d) ! k) (proc d) = (r, w', p')"
    by (cases "watchpoint_disable (watchpoints (proc d) ! k) (proc d)")
  from watchpoint_disable_frame [OF e] False e show ?thesis
    by (simp add: disable_watchpoint_def)
qed

lemma execute_command_distinct_addresses:
  assumes "distinct (map address (breakpoint_sites (proc d)))"
  shows "distinct (map address (breakpoint_sites (proc (execute_command c d))))"
proof (cases c)
  case (CreateBreakpointSite a h i)
  with assms show ?thesis
    by (auto simp add: create_breakpoint_site_def new_breakpoint_site_def Let_def
        split: prod.splits)
next
  case (EnableBreakpointSite k)
  with assms show ?thesis by (simp add: enable_breakpoint_site_addresses)
next
  case (DisableBreakpointSite k)
  with assms show ?thesis by (simp add: disable_breakpoint_site_addresses)
next
  case (RemoveBreakpointSite k)
  from assms have "distinct (map address (breakpoint_sites (proc (snd (disable_breakpoint_site d k)))))"
    by (simp add: disable_breakpoint_site_addresses)
  with RemoveBreakpointSite show ?thesis
    by (cases "disable_breakpoint_site d k")
      (auto simp add: remove_breakpoint_site_def distinct_map_remove_at split: sum.splits)
next
  case (CreateWatchpoint a m sz)
  with assms show ?thesis
    by (auto simp add: create_watchpoint_def new_watchpoint_def Let_def)
next
  case (EnableWatchpoint k)
  with assms show ?thesis by (simp add: enable_watchpoint_sites)
next
  case (DisableWatchpoint k)
  with assms show ?thesis by (simp add: disable_watchpoint_sites)
next
  case (RemoveWatchpoint k)
  from assms have "distinct (map address (breakpoint_sites (proc (snd (disable_watchpoint d k)))))"
    by (simp add: disable_watchpoint_sites)
  with RemoveWatchpoint show ?thesis
    by (cases "disable_watchpoint d k")
      (auto simp add: remove_watchpoint_def split: sum.splits)
next
  case (KernelAnswers pe po pp re ue)
  with assms show ?thesis by simp
qed

lemma run_distinct_addresses:
  "distinct (map address (breakpoint_sites (proc d))) \<Longrightarrow>
   distinct (map address (breakpoint_sites (proc (run commands d))))"
  by (induction commands arbitrary: d) (simp_all add: run_def execute_command_distinct_addresses)

text \<open>
  C8. \<^verbatim>\<open>create_breakpoint_site\<close> at an address that already has a breakpoint site
  throws and leaves the debugger, with the existing site, the collection and the id
  counter, as it was; and in every state that a session reaches from a process without
  stop points, the addresses of the breakpoint sites are pairwise different.
\<close>

theorem duplicate_breakpoint_address_fails:
  "(addr \<in> set (map address (breakpoint_sites (proc d))) \<longrightarrow>
      create_breakpoint_site d addr hardware internal
        = (Inl (send ''Breakpoint site already created at address''), d))
   \<and> distinct (map address (breakpoint_sites (proc (run commands (initial_debugger p)))))"
proof
  show "addr \<in> set (map address (breakpoint_sites (proc d))) \<longrightarrow>
      create_breakpoint_site d addr hardware internal
        = (Inl (send ''Breakpoint site already created at address''), d)"
    by (simp add: create_breakpoint_site_def)
  show "distinct (map address (breakpoint_sites (proc (run commands (initial_debugger p)))))"
    by (rule run_distinct_addresses) (simp add: initial_debugger_def)
qed



lemma example_debugger_simps:
  "map address (breakpoint_sites (proc example_debugger)) = [0x401030]"
  "map wp_size (watchpoints (proc example_debugger)) = [4]"
  "length (watchpoints (proc example_debugger)) = 1"
  by (simp_all add: example_debugger_def run_def initial_debugger_def
      create_breakpoint_site_def create_watchpoint_def new_breakpoint_site_def
      new_watchpoint_def get_next_id_def Let_def)

theorem duplicate_breakpoint_address_fails_witness:
  "0x401030 \<in> set (map address (breakpoint_sites (proc example_debugger)))
   \<and> create_breakpoint_site example_debugger 0x401030 False False
       = (Inl (send ''Breakpoint site already created at address''), example_debugger)
   \<and> map address (breakpoint_sites (proc (run
         [CreateBreakpointSite 0x401030 False False, CreateBreakpointSite 0x401030 True False,
          CreateBreakpointSite 0x401040 False False]
         (initial_debugger example_process))))
       = [0x401030, 0x401040]"
  using duplicate_breakpoint_address_fails [of "0x401030" example_debugger False False
      "[CreateBreakpointSite 0x401030 False False, CreateBreakpointSite 0x401030 True False,
          CreateBreakpointSite 0x401040 False False]" example_process]
  by (simp add: example_debugger_simps run_def initial_debugger_def
      create_breakpoint_site_def new_breakpoint_site_def get_next_id_def Let_def)

section \<open>Hardware stop points: bits of DR7\<close>

lemma bit_one_word: "bit (1 :: u64) n = (n = 0)"
  by (simp add: bit_1_iff)

lemma slot_in_use_enable_bit: "slot_in_use (enable_bit slot) j = (j = slot \<and> slot < 32)"
  by (auto simp add: slot_in_use_def enable_bit_def bit_simps bit_one_word)

lemma slot_in_use_high_bits:
  "j < 4 \<Longrightarrow> \<not> slot_in_use (push_bit (16 + n) x) j"
  by (simp add: slot_in_use_def bit_simps)

lemma slot_in_use_clear_mask: "j < 4 \<Longrightarrow> slot < 4 \<Longrightarrow> slot_in_use (clear_mask slot) j = (j = slot)"
  by (auto simp add: slot_in_use_def clear_mask_def bit_simps bit_one_word)

lemma slot_in_use_set:
  assumes "slot < 4" and "j < 4"
  shows "slot_in_use ((c AND NOT (clear_mask slot)) OR enable_bit slot OR mode_bits slot m
           OR size_bits slot f) j = (j = slot \<or> slot_in_use c j)"
proof -
  have a: "slot_in_use (x OR y) j = (slot_in_use x j \<or> slot_in_use y j)" for x y
    by (simp add: slot_in_use_def bit_simps)
  have b: "slot_in_use (x AND NOT y) j = (slot_in_use x j \<and> \<not> slot_in_use y j)" for x y
    using assms by (auto simp add: slot_in_use_def bit_simps)
  have m: "\<not> slot_in_use (mode_bits slot m) j"
    unfolding mode_bits_def using assms by (rule_tac slot_in_use_high_bits)
  have "18 + 4 * slot = 16 + (2 + 4 * slot)" by simp
  then have s: "\<not> slot_in_use (size_bits slot f) j"
    unfolding size_bits_def using assms slot_in_use_high_bits [of j "2 + 4 * slot" f] by simp
  from assms show ?thesis
    by (auto simp add: a b m s slot_in_use_enable_bit slot_in_use_clear_mask)
qed

lemma slot_in_use_clear:
  assumes "slot < 4" and "j < 4"
  shows "slot_in_use (c AND NOT (clear_mask slot)) j = (j \<noteq> slot \<and> slot_in_use c j)"
proof -
  have b: "slot_in_use (x AND NOT y) j = (slot_in_use x j \<and> \<not> slot_in_use y j)" for x y
    using assms by (auto simp add: slot_in_use_def bit_simps)
  from assms show ?thesis
    by (auto simp add: b slot_in_use_clear_mask)
qed

lemma find_free_slot_Some:
  "find_free_slot c = Some slot \<Longrightarrow> slot < 4 \<and> \<not> slot_in_use c slot"
  by (auto simp add: find_free_slot_def split: if_splits)

lemma find_free_slot_None:
  "find_free_slot c = None \<longleftrightarrow> (\<forall>j<4. slot_in_use c j)"
proof -
  have "(\<forall>j<4. P j) \<longleftrightarrow> P 0 \<and> P 1 \<and> P 2 \<and> P (3 :: nat)" for P
  proof
    assume r: "P 0 \<and> P 1 \<and> P 2 \<and> P 3"
    show "\<forall>j<4. P j"
    proof (intro allI impI)
      fix j :: nat assume "j < 4"
      then have "j = 0 \<or> j = 1 \<or> j = 2 \<or> j = 3" by arith
      with r show "P j" by auto
    qed
  qed simp
  then show ?thesis
    by (auto simp add: find_free_slot_def split: if_splits)
qed

section \<open>Allocating and releasing a slot\<close>

lemma set_hardware_stoppoint_returns:
  assumes "set_hardware_stoppoint p a m sz = (Inr i, p')"
  shows "\<exists>slot<4. i = int slot \<and> \<not> slot_in_use (debug_regs p 7) slot
    \<and> (\<forall>j<4. slot_in_use (debug_regs p' 7) j = (j = slot \<or> slot_in_use (debug_regs p 7) j))"
proof -
  from assms obtain slot f where f: "find_free_slot (debug_regs p 7) = Some slot"
    and i: "i = int slot"
    and r: "debug_regs p' 7 = (debug_regs p 7 AND NOT (clear_mask slot)) OR enable_bit slot
          OR mode_bits slot (encode_mode m) OR size_bits slot f"
    by (auto simp add: set_hardware_stoppoint_def Let_def split: option.splits if_splits)
  from find_free_slot_Some [OF f] have s: "slot < 4" "\<not> slot_in_use (debug_regs p 7) slot"
    by simp_all
  with i r show ?thesis
    by (auto simp add: slot_in_use_set)
qed

lemma clear_hardware_stoppoint_returns:
  assumes "clear_hardware_stoppoint p i = (Inr u, p')"
  shows "0 \<le> i \<and> i < 4
    \<and> (\<forall>j<4. slot_in_use (debug_regs p' 7) j = (j \<noteq> nat i \<and> slot_in_use (debug_regs p 7) j))"
proof -
  from assms have i: "0 \<le> i" "i < 4"
    and r: "debug_regs p' 7 = debug_regs p 7 AND NOT (clear_mask (nat i))"
    by (auto simp add: clear_hardware_stoppoint_def Let_def split: if_splits)
  from i have "nat i < 4" by simp
  with i r show ?thesis
    by (simp add: slot_in_use_clear)
qed


section \<open>The slots of the enabled stop points\<close>

lemma map_filter_concat:
  "map f (filter P xs) = concat (map (\<lambda>x. if P x then [f x] else []) xs)"
  by (induction xs) simp_all

lemma enabled_hardware_slots_concat:
  "enabled_hardware_slots p
     = concat (map site_slot (breakpoint_sites p)) @ concat (map watchpoint_slot (watchpoints p))"
proof -
  have "site_slot = (\<lambda>s. if is_hardware s \<and> is_enabled s then [hardware_register_index s] else [])"
    "watchpoint_slot = (\<lambda>w. if wp_is_enabled w then [wp_hardware_register_index w] else [])"
    by (simp_all add: fun_eq_iff site_slot_def watchpoint_slot_def)
  then show ?thesis
    by (simp add: enabled_hardware_slots_def map_filter_concat)
qed

lemma concat_map_nth:
  assumes "k < length xs"
  shows "concat (map f xs)
    = concat (map f (take k xs)) @ f (xs ! k) @ concat (map f (drop (Suc k) xs))"
proof -
  from assms have "xs = take k xs @ xs ! k # drop (Suc k) xs"
    by (rule id_take_nth_drop)
  then have "concat (map f xs) = concat (map f (take k xs @ xs ! k # drop (Suc k) xs))"
    by simp
  then show ?thesis by simp
qed

lemma concat_map_update:
  assumes "k < length xs"
  shows "concat (map f (xs[k := y]))
    = concat (map f (take k xs)) @ f y @ concat (map f (drop (Suc k) xs))"
  using assms by (simp add: upd_conv_take_nth_drop)

lemma concat_map_remove_at:
  "concat (map f (remove_at k xs))
    = concat (map f (take k xs)) @ concat (map f (drop (Suc k) xs))"
  by (simp add: remove_at_def)

lemma slots_ok_grow:
  assumes "slots_ok (A @ B) c" and "slot < 4" and "\<not> slot_in_use c slot"
    and "\<forall>j<4. slot_in_use c' j = (j = slot \<or> slot_in_use c j)"
  shows "slots_ok (A @ [int slot] @ B) c'"
proof -
  have new: "int slot \<notin> set (A @ B)"
  proof
    assume "int slot \<in> set (A @ B)"
    with assms(1) have "slot_in_use c (nat (int slot))"
      unfolding slots_ok_def by blast
    with assms(3) show False by simp
  qed
  have "nat i < 4" if "0 \<le> i" "i < 4" for i :: int
    using that by simp
  with assms new show ?thesis
    by (auto simp add: slots_ok_def)
qed

lemma slots_ok_shrink:
  assumes "slots_ok (A @ [i] @ B) c"
    and "\<forall>j<4. slot_in_use c' j = (j \<noteq> nat i \<and> slot_in_use c j)"
  shows "slots_ok (A @ B) c'"
proof -
  from assms(1) have i: "0 \<le> i" "i < 4" "i \<notin> set A" "i \<notin> set B"
    by (auto simp add: slots_ok_def)
  have "nat x < 4 \<and> nat x \<noteq> nat i" if "0 \<le> x" "x < 4" "x \<noteq> i" for x :: int
    using that i by auto
  with assms i show ?thesis
    by (auto simp add: slots_ok_def)
qed

lemma slots_ok_length:
  assumes "slots_ok S c"
  shows "length S \<le> 4"
proof -
  from assms have d: "distinct S" and s: "set S \<subseteq> {0, 1, 2, 3}"
    by (auto simp add: slots_ok_def)
  from d have "length S = card (set S)"
    by (simp add: distinct_card)
  also from s have "\<dots> \<le> card {0, 1, 2, 3 :: int}"
    by (intro card_mono) simp_all
  finally show ?thesis by simp
qed

lemma slots_ok_full:
  assumes "slots_ok S c" and "length S = 4"
  shows "\<forall>j<4. slot_in_use c j"
proof -
  from assms have d: "distinct S" and s: "set S \<subseteq> {0, 1, 2, 3}"
    by (auto simp add: slots_ok_def)
  from d assms(2) have "card (set S) = card {0, 1, 2, 3 :: int}"
    by (simp add: distinct_card)
  with s have e: "set S = {0, 1, 2, 3}"
    by (intro card_subset_eq) simp_all
  show ?thesis
  proof (intro allI impI)
    fix j :: nat assume "j < 4"
    then have "int j \<in> set S" unfolding e by auto
    with assms(1) have "slot_in_use c (nat (int j))"
      unfolding slots_ok_def by blast
    then show "slot_in_use c j" by simp
  qed
qed


section \<open>What a call does to the slots\<close>

lemma enable_slot_effect:
  assumes "enable set_hardware_breakpoint s p = (r, s', p')"
  shows "(site_slot s' = site_slot s \<and> debug_regs p' = debug_regs p)
    \<or> (site_slot s = [] \<and> (\<exists>slot<4. site_slot s' = [int slot]
          \<and> \<not> slot_in_use (debug_regs p 7) slot
          \<and> (\<forall>j<4. slot_in_use (debug_regs p' 7) j
                = (j = slot \<or> slot_in_use (debug_regs p 7) j))))"
proof (cases "is_hardware s \<and> \<not> is_enabled s")
  case True
  obtain r1 p1 where h: "set_hardware_stoppoint p (address s) mode_execute 1 = (r1, p1)"
    by (cases "set_hardware_stoppoint p (address s) mode_execute 1")
  show ?thesis
  proof (cases r1)
    case (Inl e)
    with h have "p1 = p" by (simp add: set_hardware_stoppoint_fails)
    with assms True h Inl show ?thesis
      by (simp add: enable_def set_hardware_breakpoint_def)
  next
    case (Inr i)
    with h set_hardware_stoppoint_returns [of p "address s" mode_execute 1 i p1]
    obtain slot where "slot < 4" "i = int slot" "\<not> slot_in_use (debug_regs p 7) slot"
      "\<forall>j<4. slot_in_use (debug_regs p1 7) j = (j = slot \<or> slot_in_use (debug_regs p 7) j)"
      by auto
    with assms True h Inr show ?thesis
      by (auto simp add: enable_def set_hardware_breakpoint_def site_slot_def)
  qed
next
  case False
  with assms show ?thesis
    by (auto simp add: enable_def ptrace_peekdata_def ptrace_pokedata_def Let_def site_slot_def
        split: if_splits)
qed

lemma disable_slot_effect:
  assumes "disable clear_hardware_stoppoint s p = (r, s', p')"
  shows "(site_slot s' = site_slot s \<and> debug_regs p' = debug_regs p)
    \<or> (site_slot s' = [] \<and> (\<exists>i. site_slot s = [i]
          \<and> (\<forall>j<4. slot_in_use (debug_regs p' 7) j
                = (j \<noteq> nat i \<and> slot_in_use (debug_regs p 7) j))))"
proof (cases "is_hardware s \<and> is_enabled s")
  case True
  obtain r1 p1 where h: "clear_hardware_stoppoint p (hardware_register_index s) = (r1, p1)"
    by (cases "clear_hardware_stoppoint p (hardware_register_index s)")
  show ?thesis
  proof (cases r1)
    case (Inl e)
    with h have "p1 = p" by (simp add: clear_hardware_stoppoint_fails)
    with assms True h Inl show ?thesis
      by (simp add: disable_def)
  next
    case (Inr u)
    with h clear_hardware_stoppoint_returns [of p "hardware_register_index s" u p1]
    have "\<forall>j<4. slot_in_use (debug_regs p1 7) j
        = (j \<noteq> nat (hardware_register_index s) \<and> slot_in_use (debug_regs p 7) j)"
      by simp
    with assms True h Inr show ?thesis
      by (auto simp add: disable_def site_slot_def)
  qed
next
  case False
  with assms show ?thesis
    by (auto simp add: disable_def ptrace_peekdata_def ptrace_pokedata_def Let_def site_slot_def
        split: if_splits)
qed

lemma watchpoint_enable_slot_effect:
  assumes "watchpoint_enable w p = (r, w', p')"
  shows "(watchpoint_slot w' = watchpoint_slot w \<and> debug_regs p' = debug_regs p)
    \<or> (watchpoint_slot w = [] \<and> (\<exists>slot<4. watchpoint_slot w' = [int slot]
          \<and> \<not> slot_in_use (debug_regs p 7) slot
          \<and> (\<forall>j<4. slot_in_use (debug_regs p' 7) j
                = (j = slot \<or> slot_in_use (debug_regs p 7) j))))"
proof (cases "wp_is_enabled w \<or> read_memory p (wp_address w) (wp_size w) = None")
  case True
  with assms show ?thesis
    by (auto simp add: watchpoint_enable_def split: if_splits)
next
  case False
  then obtain bs where b: "read_memory p (wp_address w) (wp_size w) = Some bs" by auto
  obtain r1 p1 where h: "set_hardware_stoppoint p (wp_address w) (wp_mode w) (wp_size w) = (r1, p1)"
    by (cases "set_hardware_stoppoint p (wp_address w) (wp_mode w) (wp_size w)")
  show ?thesis
  proof (cases r1)
    case (Inl e)
    with h have "p1 = p" by (simp add: set_hardware_stoppoint_fails)
    with assms False b h Inl show ?thesis
      by (simp add: watchpoint_enable_def set_watchpoint_def)
  next
    case (Inr i)
    with h set_hardware_stoppoint_returns [of p "wp_address w" "wp_mode w" "wp_size w" i p1]
    obtain slot where "slot < 4" "i = int slot" "\<not> slot_in_use (debug_regs p 7) slot"
      "\<forall>j<4. slot_in_use (debug_regs p1 7) j = (j = slot \<or> slot_in_use (debug_regs p 7) j)"
      by auto
    with assms False b h Inr show ?thesis
      by (auto simp add: watchpoint_enable_def set_watchpoint_def watchpoint_slot_def)
  qed
qed

lemma watchpoint_disable_slot_effect:
  assumes "watchpoint_disable w p = (r, w', p')"
  shows "(watchpoint_slot w' = watchpoint_slot w \<and> debug_regs p' = debug_regs p)
    \<or> (watchpoint_slot w' = [] \<and> (\<exists>i. watchpoint_slot w = [i]
          \<and> (\<forall>j<4. slot_in_use (debug_regs p' 7) j
                = (j \<noteq> nat i \<and> slot_in_use (debug_regs p 7) j))))"
proof (cases "wp_is_enabled w")
  case True
  obtain r1 p1 where h: "clear_hardware_stoppoint p (wp_hardware_register_index w) = (r1, p1)"
    by (cases "clear_hardware_stoppoint p (wp_hardware_register_index w)")
  show ?thesis
  proof (cases r1)
    case (Inl e)
    with h have "p1 = p" by (simp add: clear_hardware_stoppoint_fails)
    with assms True h Inl show ?thesis
      by (simp add: watchpoint_disable_def)
  next
    case (Inr u)
    with h clear_hardware_stoppoint_returns [of p "wp_hardware_register_index w" u p1]
    have "\<forall>j<4. slot_in_use (debug_regs p1 7) j
        = (j \<noteq> nat (wp_hardware_register_index w) \<and> slot_in_use (debug_regs p 7) j)"
      by simp
    with assms True h Inr show ?thesis
      by (auto simp add: watchpoint_disable_def watchpoint_slot_def)
  qed
next
  case False
  with assms show ?thesis
    by (auto simp add: watchpoint_disable_def)
qed

lemma slots_ok_replace:
  assumes "slots_ok (A @ X @ B) c"
    and "(X' = X \<and> c' = c)
      \<or> (X = [] \<and> (\<exists>slot<4. X' = [int slot] \<and> \<not> slot_in_use c slot
            \<and> (\<forall>j<4. slot_in_use c' j = (j = slot \<or> slot_in_use c j))))
      \<or> (X' = [] \<and> (\<exists>i. X = [i]
            \<and> (\<forall>j<4. slot_in_use c' j = (j \<noteq> nat i \<and> slot_in_use c j))))"
  shows "slots_ok (A @ X' @ B) c'"
proof -
  from assms(2) consider
      (same) "X' = X" "c' = c"
    | (grow) slot where "X = []" "slot < 4" "X' = [int slot]" "\<not> slot_in_use c slot"
        "\<forall>j<4. slot_in_use c' j = (j = slot \<or> slot_in_use c j)"
    | (shrink) i where "X' = []" "X = [i]"
        "\<forall>j<4. slot_in_use c' j = (j \<noteq> nat i \<and> slot_in_use c j)"
    by blast
  then show ?thesis
  proof cases
    case same
    with assms(1) show ?thesis by simp
  next
    case grow
    with assms(1) slots_ok_grow [of A B c slot c'] show ?thesis by simp
  next
    case shrink
    with assms(1) slots_ok_shrink [of A i B c c'] show ?thesis by simp
  qed
qed


section \<open>The invariant of the debugger\<close>

lemma site_update_ok:
  assumes "debugger_ok d" and "k < length (breakpoint_sites (proc d))"
    and "breakpoint_sites p' = breakpoint_sites (proc d)"
    and "watchpoints p' = watchpoints (proc d)"
    and "(site_slot s' = site_slot (breakpoint_sites (proc d) ! k)
            \<and> debug_regs p' 7 = debug_regs (proc d) 7)
      \<or> (site_slot (breakpoint_sites (proc d) ! k) = []
          \<and> (\<exists>slot<4. site_slot s' = [int slot]
            \<and> \<not> slot_in_use (debug_regs (proc d) 7) slot
            \<and> (\<forall>j<4. slot_in_use (debug_regs p' 7) j
                  = (j = slot \<or> slot_in_use (debug_regs (proc d) 7) j))))
      \<or> (site_slot s' = [] \<and> (\<exists>i. site_slot (breakpoint_sites (proc d) ! k) = [i]
            \<and> (\<forall>j<4. slot_in_use (debug_regs p' 7) j
                  = (j \<noteq> nat i \<and> slot_in_use (debug_regs (proc d) 7) j))))"
  shows "debugger_ok (d\<lparr>proc := p'\<lparr>breakpoint_sites := (breakpoint_sites p')[k := s']\<rparr>\<rparr>)"
proof -
  let ?xs = "breakpoint_sites (proc d)"
  let ?A = "concat (map site_slot (take k ?xs))"
  let ?B = "concat (map site_slot (drop (Suc k) ?xs))
      @ concat (map watchpoint_slot (watchpoints (proc d)))"
  from assms(1,2) have "slots_ok (?A @ site_slot (?xs ! k) @ ?B) (debug_regs (proc d) 7)"
    by (simp add: debugger_ok_def enabled_hardware_slots_concat concat_map_nth [of k ?xs])
  from slots_ok_replace [OF this assms(5)]
  have "slots_ok (?A @ site_slot s' @ ?B) (debug_regs p' 7)" .
  with assms(1-4) show ?thesis
    by (simp add: debugger_ok_def enabled_hardware_slots_concat concat_map_update)
qed

lemma watchpoint_update_ok:
  assumes "debugger_ok d" and "k < length (watchpoints (proc d))"
    and "breakpoint_sites p' = breakpoint_sites (proc d)"
    and "watchpoints p' = watchpoints (proc d)"
    and "wp_size w' = wp_size (watchpoints (proc d) ! k)"
    and "(watchpoint_slot w' = watchpoint_slot (watchpoints (proc d) ! k)
            \<and> debug_regs p' 7 = debug_regs (proc d) 7)
      \<or> (watchpoint_slot (watchpoints (proc d) ! k) = []
          \<and> (\<exists>slot<4. watchpoint_slot w' = [int slot]
            \<and> \<not> slot_in_use (debug_regs (proc d) 7) slot
            \<and> (\<forall>j<4. slot_in_use (debug_regs p' 7) j
                  = (j = slot \<or> slot_in_use (debug_regs (proc d) 7) j))))
      \<or> (watchpoint_slot w' = [] \<and> (\<exists>i. watchpoint_slot (watchpoints (proc d) ! k) = [i]
            \<and> (\<forall>j<4. slot_in_use (debug_regs p' 7) j
                  = (j \<noteq> nat i \<and> slot_in_use (debug_regs (proc d) 7) j))))"
  shows "debugger_ok (d\<lparr>proc := p'\<lparr>watchpoints := (watchpoints p')[k := w']\<rparr>\<rparr>)"
proof -
  let ?xs = "watchpoints (proc d)"
  let ?A = "concat (map site_slot (breakpoint_sites (proc d)))
      @ concat (map watchpoint_slot (take k ?xs))"
  let ?B = "concat (map watchpoint_slot (drop (Suc k) ?xs))"
  from assms(1,2) have "slots_ok (?A @ watchpoint_slot (?xs ! k) @ ?B) (debug_regs (proc d) 7)"
    by (simp add: debugger_ok_def enabled_hardware_slots_concat concat_map_nth [of k ?xs])
  from slots_ok_replace [OF this assms(6)]
  have s: "slots_ok (?A @ watchpoint_slot w' @ ?B) (debug_regs p' 7)" .
  from assms(1,2,5) have "\<forall>w \<in> set (?xs[k := w']). wp_size w \<in> {1, 2, 4, 8}"
    by (auto simp add: debugger_ok_def set_conv_nth nth_list_update)
  with s assms(1-4) show ?thesis
    by (simp add: debugger_ok_def enabled_hardware_slots_concat concat_map_update)
qed

lemma enable_breakpoint_site_ok:
  assumes "debugger_ok d"
  shows "debugger_ok (snd (enable_breakpoint_site d k))"
proof (cases "length (breakpoint_sites (proc d)) \<le> k")
  case True
  with assms show ?thesis by (simp add: enable_breakpoint_site_def)
next
  case False
  obtain r s' p' where e:
    "enable set_hardware_breakpoint (breakpoint_sites (proc d) ! k) (proc d) = (r, s', p')"
    by (cases "enable set_hardware_breakpoint (breakpoint_sites (proc d) ! k) (proc d)")
  from enable_frame [OF e] have f: "breakpoint_sites p' = breakpoint_sites (proc d)"
    "watchpoints p' = watchpoints (proc d)" by simp_all
  from False have k: "k < length (breakpoint_sites (proc d))" by simp
  have "debugger_ok (d\<lparr>proc := p'\<lparr>breakpoint_sites := (breakpoint_sites p')[k := s']\<rparr>\<rparr>)"
    using assms k f
  proof (rule site_update_ok)
    from enable_slot_effect [OF e]
    show "(site_slot s' = site_slot (breakpoint_sites (proc d) ! k)
            \<and> debug_regs p' 7 = debug_regs (proc d) 7)
      \<or> (site_slot (breakpoint_sites (proc d) ! k) = []
          \<and> (\<exists>slot<4. site_slot s' = [int slot]
            \<and> \<not> slot_in_use (debug_regs (proc d) 7) slot
            \<and> (\<forall>j<4. slot_in_use (debug_regs p' 7) j
                  = (j = slot \<or> slot_in_use (debug_regs (proc d) 7) j))))
      \<or> (site_slot s' = [] \<and> (\<exists>i. site_slot (breakpoint_sites (proc d) ! k) = [i]
            \<and> (\<forall>j<4. slot_in_use (debug_regs p' 7) j
                  = (j \<noteq> nat i \<and> slot_in_use (debug_regs (proc d) 7) j))))"
      by auto
  qed
  with False e show ?thesis by (simp add: enable_breakpoint_site_def)
qed

lemma disable_breakpoint_site_ok:
  assumes "debugger_ok d"
  shows "debugger_ok (snd (disable_breakpoint_site d k))"
proof (cases "length (breakpoint_sites (proc d)) \<le> k")
  case True
  with assms show ?thesis by (simp add: disable_breakpoint_site_def)
next
  case False
  obtain r s' p' where e:
    "disable clear_hardware_stoppoint (breakpoint_sites (proc d) ! k) (proc d) = (r, s', p')"
    by (cases "disable clear_hardware_stoppoint (breakpoint_sites (proc d) ! k) (proc d)")
  from disable_frame [OF e] have f: "breakpoint_sites p' = breakpoint_sites (proc d)"
    "watchpoints p' = watchpoints (proc d)" by simp_all
  from False have k: "k < length (breakpoint_sites (proc d))" by simp
  have "debugger_ok (d\<lparr>proc := p'\<lparr>breakpoint_sites := (breakpoint_sites p')[k := s']\<rparr>\<rparr>)"
    using assms k f
  proof (rule site_update_ok)
    from disable_slot_effect [OF e]
    show "(site_slot s' = site_slot (breakpoint_sites (proc d) ! k)
            \<and> debug_regs p' 7 = debug_regs (proc d) 7)
      \<or> (site_slot (breakpoint_sites (proc d) ! k) = []
          \<and> (\<exists>slot<4. site_slot s' = [int slot]
            \<and> \<not> slot_in_use (debug_regs (proc d) 7) slot
            \<and> (\<forall>j<4. slot_in_use (debug_regs p' 7) j
                  = (j = slot \<or> slot_in_use (debug_regs (proc d) 7) j))))
      \<or> (site_slot s' = [] \<and> (\<exists>i. site_slot (breakpoint_sites (proc d) ! k) = [i]
            \<and> (\<forall>j<4. slot_in_use (debug_regs p' 7) j
                  = (j \<noteq> nat i \<and> slot_in_use (debug_regs (proc d) 7) j))))"
      by auto
  qed
  with False e show ?thesis by (simp add: disable_breakpoint_site_def)
qed


lemma watchpoint_enable_size:
  "watchpoint_enable w p = (r, w', p') \<Longrightarrow> wp_size w' = wp_size w"
  by (cases "set_watchpoint p (wp_id w) (wp_address w) (wp_mode w) (wp_size w)")
    (auto simp add: watchpoint_enable_def split: if_splits option.splits sum.splits)

lemma watchpoint_disable_size:
  "watchpoint_disable w p = (r, w', p') \<Longrightarrow> wp_size w' = wp_size w"
  by (cases "clear_hardware_stoppoint p (wp_hardware_register_index w)")
    (auto simp add: watchpoint_disable_def split: if_splits sum.splits)

lemma enable_watchpoint_ok:
  assumes "debugger_ok d"
  shows "debugger_ok (snd (enable_watchpoint d k))"
proof (cases "length (watchpoints (proc d)) \<le> k")
  case True
  with assms show ?thesis by (simp add: enable_watchpoint_def)
next
  case False
  obtain r w' p' where e: "watchpoint_enable (watchpoints (proc d) ! k) (proc d) = (r, w', p')"
    by (cases "watchpoint_enable (watchpoints (proc d) ! k) (proc d)")
  from watchpoint_enable_frame [OF e] have f: "breakpoint_sites p' = breakpoint_sites (proc d)"
    "watchpoints p' = watchpoints (proc d)" by simp_all
  from False have k: "k < length (watchpoints (proc d))" by simp
  have "debugger_ok (d\<lparr>proc := p'\<lparr>watchpoints := (watchpoints p')[k := w']\<rparr>\<rparr>)"
    using assms k f watchpoint_enable_size [OF e]
  proof (rule watchpoint_update_ok)
    from watchpoint_enable_slot_effect [OF e]
    show "(watchpoint_slot w' = watchpoint_slot (watchpoints (proc d) ! k)
            \<and> debug_regs p' 7 = debug_regs (proc d) 7)
      \<or> (watchpoint_slot (watchpoints (proc d) ! k) = []
          \<and> (\<exists>slot<4. watchpoint_slot w' = [int slot]
            \<and> \<not> slot_in_use (debug_regs (proc d) 7) slot
            \<and> (\<forall>j<4. slot_in_use (debug_regs p' 7) j
                  = (j = slot \<or> slot_in_use (debug_regs (proc d) 7) j))))
      \<or> (watchpoint_slot w' = [] \<and> (\<exists>i. watchpoint_slot (watchpoints (proc d) ! k) = [i]
            \<and> (\<forall>j<4. slot_in_use (debug_regs p' 7) j
                  = (j \<noteq> nat i \<and> slot_in_use (debug_regs (proc d) 7) j))))"
      by auto
  qed
  with False e show ?thesis by (simp add: enable_watchpoint_def)
qed

lemma disable_watchpoint_ok:
  assumes "debugger_ok d"
  shows "debugger_ok (snd (disable_watchpoint d k))"
proof (cases "length (watchpoints (proc d)) \<le> k")
  case True
  with assms show ?thesis by (simp add: disable_watchpoint_def)
next
  case False
  obtain r w' p' where e: "watchpoint_disable (watchpoints (proc d) ! k) (proc d) = (r, w', p')"
    by (cases "watchpoint_disable (watchpoints (proc d) ! k) (proc d)")
  from watchpoint_disable_frame [OF e] have f: "breakpoint_sites p' = breakpoint_sites (proc d)"
    "watchpoints p' = watchpoints (proc d)" by simp_all
  from False have k: "k < length (watchpoints (proc d))" by simp
  have "debugger_ok (d\<lparr>proc := p'\<lparr>watchpoints := (watchpoints p')[k := w']\<rparr>\<rparr>)"
    using assms k f watchpoint_disable_size [OF e]
  proof (rule watchpoint_update_ok)
    from watchpoint_disable_slot_effect [OF e]
    show "(watchpoint_slot w' = watchpoint_slot (watchpoints (proc d) ! k)
            \<and> debug_regs p' 7 = debug_regs (proc d) 7)
      \<or> (watchpoint_slot (watchpoints (proc d) ! k) = []
          \<and> (\<exists>slot<4. watchpoint_slot w' = [int slot]
            \<and> \<not> slot_in_use (debug_regs (proc d) 7) slot
            \<and> (\<forall>j<4. slot_in_use (debug_regs p' 7) j
                  = (j = slot \<or> slot_in_use (debug_regs (proc d) 7) j))))
      \<or> (watchpoint_slot w' = [] \<and> (\<exists>i. watchpoint_slot (watchpoints (proc d) ! k) = [i]
            \<and> (\<forall>j<4. slot_in_use (debug_regs p' 7) j
                  = (j \<noteq> nat i \<and> slot_in_use (debug_regs (proc d) 7) j))))"
      by auto
  qed
  with False e show ?thesis by (simp add: disable_watchpoint_def)
qed

lemma disable_returns_disabled:
  "disable g s p = (Inr u, s', p') \<Longrightarrow> \<not> is_enabled s'"
  by (auto simp add: disable_def ptrace_peekdata_def ptrace_pokedata_def Let_def
      split: if_splits prod.splits sum.splits)

lemma watchpoint_disable_returns_disabled:
  "watchpoint_disable w p = (Inr u, w', p') \<Longrightarrow> \<not> wp_is_enabled w'"
  by (auto simp add: watchpoint_disable_def split: if_splits prod.splits sum.splits)

lemma remove_breakpoint_site_ok:
  assumes "debugger_ok d"
  shows "debugger_ok (snd (remove_breakpoint_site d k))"
proof -
  obtain r d1 where d1: "disable_breakpoint_site d k = (r, d1)"
    by (cases "disable_breakpoint_site d k")
  from disable_breakpoint_site_ok [OF assms, of k] d1 have ok: "debugger_ok d1" by simp
  show ?thesis
  proof (cases r)
    case (Inl e)
    with d1 ok show ?thesis by (simp add: remove_breakpoint_site_def)
  next
    case (Inr u)
    with d1 have k: "k < length (breakpoint_sites (proc d))"
      by (auto simp add: disable_breakpoint_site_def split: if_splits)
    obtain r' s' p' where e:
      "disable clear_hardware_stoppoint (breakpoint_sites (proc d) ! k) (proc d) = (r', s', p')"
      by (cases "disable clear_hardware_stoppoint (breakpoint_sites (proc d) ! k) (proc d)")
    from disable_frame [OF e] have f: "breakpoint_sites p' = breakpoint_sites (proc d)" by simp
    from d1 k e Inr have r': "r' = Inr u"
      and p1: "proc d1 = p'\<lparr>breakpoint_sites := (breakpoint_sites p')[k := s']\<rparr>"
      by (auto simp add: disable_breakpoint_site_def)
    from e r' have "\<not> is_enabled s'" by (simp add: disable_returns_disabled)
    then have z: "site_slot s' = []" by (simp add: site_slot_def)
    let ?xs = "breakpoint_sites (proc d1)"
    from p1 k f have k1: "k < length ?xs" and n: "?xs ! k = s'" by simp_all
    from z n k1 have "concat (map site_slot (remove_at k ?xs)) = concat (map site_slot ?xs)"
      by (simp add: concat_map_remove_at concat_map_nth [of k ?xs])
    with ok d1 Inr show ?thesis
      by (simp add: remove_breakpoint_site_def debugger_ok_def enabled_hardware_slots_concat)
  qed
qed

lemma set_remove_at: "set (remove_at k xs) \<subseteq> set xs"
  by (auto simp add: remove_at_def dest: in_set_takeD in_set_dropD)

lemma remove_watchpoint_ok:
  assumes "debugger_ok d"
  shows "debugger_ok (snd (remove_watchpoint d k))"
proof -
  obtain r d1 where d1: "disable_watchpoint d k = (r, d1)"
    by (cases "disable_watchpoint d k")
  from disable_watchpoint_ok [OF assms, of k] d1 have ok: "debugger_ok d1" by simp
  show ?thesis
  proof (cases r)
    case (Inl e)
    with d1 ok show ?thesis by (simp add: remove_watchpoint_def)
  next
    case (Inr u)
    with d1 have k: "k < length (watchpoints (proc d))"
      by (auto simp add: disable_watchpoint_def split: if_splits)
    obtain r' w' p' where e:
      "watchpoint_disable (watchpoints (proc d) ! k) (proc d) = (r', w', p')"
      by (cases "watchpoint_disable (watchpoints (proc d) ! k) (proc d)")
    from watchpoint_disable_frame [OF e] have f: "watchpoints p' = watchpoints (proc d)" by simp
    from d1 k e Inr have r': "r' = Inr u"
      and p1: "proc d1 = p'\<lparr>watchpoints := (watchpoints p')[k := w']\<rparr>"
      by (auto simp add: disable_watchpoint_def)
    from e r' have "\<not> wp_is_enabled w'" by (simp add: watchpoint_disable_returns_disabled)
    then have z: "watchpoint_slot w' = []" by (simp add: watchpoint_slot_def)
    let ?xs = "watchpoints (proc d1)"
    from p1 k f have k1: "k < length ?xs" and n: "?xs ! k = w'" by simp_all
    from z n k1 have c: "concat (map watchpoint_slot (remove_at k ?xs))
        = concat (map watchpoint_slot ?xs)"
      by (simp add: concat_map_remove_at concat_map_nth [of k ?xs])
    from ok have "\<forall>w \<in> set (remove_at k ?xs). wp_size w \<in> {1, 2, 4, 8}"
      using set_remove_at [of k ?xs] by (auto simp add: debugger_ok_def)
    with ok d1 Inr c show ?thesis
      by (simp add: remove_watchpoint_def debugger_ok_def enabled_hardware_slots_concat)
  qed
qed

lemma create_breakpoint_site_ok:
  assumes "debugger_ok d"
  shows "debugger_ok (snd (create_breakpoint_site d a h i))"
proof -
  have "site_slot s = []" if "new_breakpoint_site c a h i = (s, c')" for c s c'
    using that by (auto simp add: new_breakpoint_site_def site_slot_def split: prod.splits)
  with assms show ?thesis
    by (auto simp add: create_breakpoint_site_def Let_def debugger_ok_def
        enabled_hardware_slots_concat split: prod.splits)
qed

lemma create_watchpoint_ok:
  assumes "debugger_ok d"
  shows "debugger_ok (snd (create_watchpoint d a m sz))"
  using assms
  by (auto simp add: create_watchpoint_def new_watchpoint_def Let_def debugger_ok_def
      enabled_hardware_slots_concat watchpoint_slot_def)

lemma execute_command_ok:
  assumes "debugger_ok d"
  shows "debugger_ok (execute_command c d)"
proof (cases c)
  case (KernelAnswers pe po pp re ue)
  with assms show ?thesis
    by (simp add: debugger_ok_def enabled_hardware_slots_def)
qed (use assms in \<open>simp_all add: create_breakpoint_site_ok enable_breakpoint_site_ok
    disable_breakpoint_site_ok remove_breakpoint_site_ok create_watchpoint_ok
    enable_watchpoint_ok disable_watchpoint_ok remove_watchpoint_ok\<close>)

lemma run_ok: "debugger_ok d \<Longrightarrow> debugger_ok (run commands d)"
  by (induction commands arbitrary: d) (simp_all add: run_def execute_command_ok)

lemma initial_debugger_ok: "debugger_ok (initial_debugger p)"
  by (simp add: debugger_ok_def initial_debugger_def enabled_hardware_slots_def slots_ok_def)


section \<open>The size of a watchpoint\<close>

text \<open>
  C9. \<^verbatim>\<open>create_watchpoint\<close> with a size other than 1, 2, 4 and 8 throws an error
  without an errno and leaves the debugger, with the collection of watchpoints, as it
  was. With a size of 1, 2, 4 or 8 it appends a disabled watchpoint of that address,
  mode and size to the collection and returns a reference to it. So in every state
  that a session reaches from a process without stop points, every watchpoint has a
  size of 1, 2, 4 or 8.
\<close>

theorem create_watchpoint_checks_size:
  "(sz \<notin> {1, 2, 4, 8} \<longrightarrow>
      create_watchpoint d addr mode sz = (Inl (Error ''Invalid watchpoint size'' None), d))
   \<and> (sz' \<in> {1, 2, 4, 8} \<longrightarrow>
        fst (create_watchpoint d' addr' mode' sz') = Inr (length (watchpoints (proc d')))
        \<and> watchpoints (proc (snd (create_watchpoint d' addr' mode' sz')))
            = watchpoints (proc d') @
              [\<lparr>wp_id = watchpoint_ids d' + 1, wp_address = addr', wp_mode = mode',
                wp_size = sz', wp_is_enabled = False, wp_hardware_register_index = - 1,
                previous_data = [], current_data = []\<rparr>])
   \<and> (\<forall>w \<in> set (watchpoints (proc (run commands (initial_debugger p)))).
         wp_size w \<in> {1, 2, 4, 8})"
proof (intro conjI)
  show "sz \<notin> {1, 2, 4, 8} \<longrightarrow>
      create_watchpoint d addr mode sz = (Inl (Error ''Invalid watchpoint size'' None), d)"
    by (simp add: create_watchpoint_def send_def)
  show "sz' \<in> {1, 2, 4, 8} \<longrightarrow>
        fst (create_watchpoint d' addr' mode' sz') = Inr (length (watchpoints (proc d')))
        \<and> watchpoints (proc (snd (create_watchpoint d' addr' mode' sz')))
            = watchpoints (proc d') @
              [\<lparr>wp_id = watchpoint_ids d' + 1, wp_address = addr', wp_mode = mode',
                wp_size = sz', wp_is_enabled = False, wp_hardware_register_index = - 1,
                previous_data = [], current_data = []\<rparr>]"
    by (auto simp add: create_watchpoint_def new_watchpoint_def Let_def)
  have "debugger_ok (run commands (initial_debugger p))"
    by (rule run_ok) (rule initial_debugger_ok)
  then show "\<forall>w \<in> set (watchpoints (proc (run commands (initial_debugger p)))).
         wp_size w \<in> {1, 2, 4, 8}"
    by (simp add: debugger_ok_def)
qed

theorem create_watchpoint_checks_size_witness:
  "(3 :: nat) \<notin> {1, 2, 4, 8}
   \<and> create_watchpoint example_debugger 0x402008 mode_write 3
       = (Inl (Error ''Invalid watchpoint size'' None), example_debugger)
   \<and> (8 :: nat) \<in> {1, 2, 4, 8}
   \<and> fst (create_watchpoint example_debugger 0x402000 mode_read_write 8) = Inr 1
   \<and> map wp_size (watchpoints (proc (snd
         (create_watchpoint example_debugger 0x402000 mode_read_write 8)))) = [4, 8]
   \<and> map wp_size (watchpoints (proc (run
         [CreateWatchpoint 0x402000 mode_write 4, CreateWatchpoint 0x402008 mode_write 3,
          CreateWatchpoint 0x402010 mode_execute 1]
         (initial_debugger example_process)))) = [4, 1]"
  using create_watchpoint_checks_size [where sz = 3 and d = example_debugger
      and addr = "0x402008" and mode = mode_write and sz' = 8 and d' = example_debugger
      and addr' = "0x402000" and mode' = mode_read_write
      and commands = "[CreateWatchpoint 0x402000 mode_write 4,
          CreateWatchpoint 0x402008 mode_write 3, CreateWatchpoint 0x402010 mode_execute 1]"
      and p = example_process]
  by (simp add: example_debugger_simps run_def initial_debugger_def create_watchpoint_def
      new_watchpoint_def Let_def)

section \<open>Four slots\<close>

lemma set_hardware_stoppoint_full:
  "\<forall>j<4. slot_in_use (debug_regs p 7) j \<Longrightarrow>
   set_hardware_stoppoint p a m sz = (Inl (send ''No remaining hardware debug registers''), p)"
  using find_free_slot_None [of "debug_regs p 7"]
  by (simp add: set_hardware_stoppoint_def Let_def)

lemma set_hardware_stoppoint_free:
  assumes "find_free_slot (debug_regs p 7) \<noteq> None" and "sz \<in> {1, 2, 4, 8}"
    and "\<forall>i. pokeuser_errno p i = 0"
  shows "\<exists>i p'. set_hardware_stoppoint p a m sz = (Inr i, p')"
proof -
  from assms(2) have "encode_size sz \<noteq> None"
    by (auto simp add: encode_size_def)
  with assms(1,3) show ?thesis
    by (auto simp add: set_hardware_stoppoint_def Let_def)
qed

lemma clear_hardware_stoppoint_frees:
  assumes "0 \<le> i" and "i < 4" and "\<forall>j. pokeuser_errno p j = 0"
  shows "\<exists>p'. clear_hardware_stoppoint p i = (Inr (), p')
    \<and> find_free_slot (debug_regs p' 7) \<noteq> None"
proof -
  from assms obtain p' where c: "clear_hardware_stoppoint p i = (Inr (), p')"
    by (auto simp add: clear_hardware_stoppoint_def Let_def)
  from assms have n: "nat i < 4" by simp
  from clear_hardware_stoppoint_returns [OF c] n
  have "\<not> slot_in_use (debug_regs p' 7) (nat i)" by blast
  with n have "find_free_slot (debug_regs p' 7) \<noteq> None"
    unfolding find_free_slot_None by blast
  with c show ?thesis by blast
qed

lemma debugger_update_same_site:
  "k < length (breakpoint_sites (proc d)) \<Longrightarrow>
   d\<lparr>proc := (proc d)\<lparr>breakpoint_sites :=
        (breakpoint_sites (proc d))[k := breakpoint_sites (proc d) ! k]\<rparr>\<rparr> = d"
  by simp

lemma debugger_update_same_watchpoint:
  "k < length (watchpoints (proc d)) \<Longrightarrow>
   d\<lparr>proc := (proc d)\<lparr>watchpoints :=
        (watchpoints (proc d))[k := watchpoints (proc d) ! k]\<rparr>\<rparr> = d"
  by simp

lemma enable_stoppoint_full:
  assumes "debugger_ok d" and "length (enabled_hardware_slots (proc d)) = 4"
    and "is_hardware_stoppoint d r" and "\<not> stoppoint_enabled d r"
  shows "isl (fst (enable_stoppoint d r)) \<and> snd (enable_stoppoint d r) = d"
proof -
  from assms(1) have "slots_ok (enabled_hardware_slots (proc d)) (debug_regs (proc d) 7)"
    by (simp add: debugger_ok_def)
  from slots_ok_full [OF this assms(2)]
  have full: "\<forall>j<4. slot_in_use (debug_regs (proc d) 7) j" .
  show ?thesis
  proof (cases r)
    case (SiteRef k)
    with assms(3,4) have k: "k < length (breakpoint_sites (proc d))"
      and h: "is_hardware (breakpoint_sites (proc d) ! k)"
      and e: "\<not> is_enabled (breakpoint_sites (proc d) ! k)" by simp_all
    from h e full have "enable set_hardware_breakpoint (breakpoint_sites (proc d) ! k) (proc d)
        = (Inl (send ''No remaining hardware debug registers''),
           breakpoint_sites (proc d) ! k, proc d)"
      by (simp add: enable_def set_hardware_breakpoint_def set_hardware_stoppoint_full)
    with k SiteRef show ?thesis
      by (simp add: enable_breakpoint_site_def)
  next
    case (WatchpointRef k)
    with assms(3,4) have k: "k < length (watchpoints (proc d))"
      and e: "\<not> wp_is_enabled (watchpoints (proc d) ! k)" by simp_all
    from e full have "\<exists>x. watchpoint_enable (watchpoints (proc d) ! k) (proc d)
        = (Inl x, watchpoints (proc d) ! k, proc d)"
      by (simp add: watchpoint_enable_def set_watchpoint_def set_hardware_stoppoint_full
          split: option.splits)
    then obtain x where "watchpoint_enable (watchpoints (proc d) ! k) (proc d)
        = (Inl x, watchpoints (proc d) ! k, proc d)" ..
    with k WatchpointRef show ?thesis
      by (simp add: enable_watchpoint_def)
  qed
qed


lemma site_slot_in_slots:
  "k < length (breakpoint_sites p) \<Longrightarrow> is_hardware (breakpoint_sites p ! k) \<Longrightarrow>
   is_enabled (breakpoint_sites p ! k) \<Longrightarrow>
   hardware_register_index (breakpoint_sites p ! k) \<in> set (enabled_hardware_slots p)"
  by (simp add: enabled_hardware_slots_def)

lemma watchpoint_slot_in_slots:
  "k < length (watchpoints p) \<Longrightarrow> wp_is_enabled (watchpoints p ! k) \<Longrightarrow>
   wp_hardware_register_index (watchpoints p ! k) \<in> set (enabled_hardware_slots p)"
  by (simp add: enabled_hardware_slots_def)

lemma disable_stoppoint_frees:
  assumes "debugger_ok d" and "is_hardware_stoppoint d r" and "stoppoint_enabled d r"
    and "\<forall>i. pokeuser_errno (proc d) i = 0"
  shows "fst (disable_stoppoint d r) = Inr ()
    \<and> find_free_slot (debug_regs (proc (snd (disable_stoppoint d r))) 7) \<noteq> None
    \<and> pokeuser_errno (proc (snd (disable_stoppoint d r))) = pokeuser_errno (proc d)
    \<and> read_errno (proc (snd (disable_stoppoint d r))) = read_errno (proc d)
    \<and> (\<forall>r'. is_hardware_stoppoint d r' \<and> \<not> stoppoint_enabled d r' \<longrightarrow>
          is_hardware_stoppoint (snd (disable_stoppoint d r)) r'
          \<and> \<not> stoppoint_enabled (snd (disable_stoppoint d r)) r')"
proof (cases r)
  case (SiteRef k)
  let ?s = "breakpoint_sites (proc d) ! k"
  from SiteRef assms(2,3) have k: "k < length (breakpoint_sites (proc d))"
    and h: "is_hardware ?s" and e: "is_enabled ?s" by simp_all
  from site_slot_in_slots [OF k h e] assms(1)
  have i: "0 \<le> hardware_register_index ?s" "hardware_register_index ?s < 4"
    unfolding debugger_ok_def slots_ok_def by blast+
  from clear_hardware_stoppoint_frees [OF i assms(4)] obtain p'
    where c: "clear_hardware_stoppoint (proc d) (hardware_register_index ?s) = (Inr (), p')"
      and f: "find_free_slot (debug_regs p' 7) \<noteq> None" by blast
  note fr = clear_hardware_stoppoint_frame [OF c]
  from h e c have dis: "disable clear_hardware_stoppoint ?s (proc d)
      = (Inr (), ?s\<lparr>hardware_register_index := - 1, is_enabled := False\<rparr>, p')"
    by (simp add: disable_def)
  have others: "is_hardware_stoppoint (snd (disable_stoppoint d r)) r'
      \<and> \<not> stoppoint_enabled (snd (disable_stoppoint d r)) r'"
    if "is_hardware_stoppoint d r' \<and> \<not> stoppoint_enabled d r'" for r'
  proof (cases r')
    case (SiteRef j)
    with that e have "j \<noteq> k" by auto
    with that k dis fr SiteRef \<open>r = SiteRef k\<close> show ?thesis
      by (simp add: disable_breakpoint_site_def)
  next
    case (WatchpointRef j)
    with that k dis fr \<open>r = SiteRef k\<close> show ?thesis
      by (simp add: disable_breakpoint_site_def)
  qed
  from k dis fr f SiteRef have "fst (disable_stoppoint d r) = Inr ()"
    "find_free_slot (debug_regs (proc (snd (disable_stoppoint d r))) 7) \<noteq> None"
    "pokeuser_errno (proc (snd (disable_stoppoint d r))) = pokeuser_errno (proc d)"
    "read_errno (proc (snd (disable_stoppoint d r))) = read_errno (proc d)"
    by (simp_all add: disable_breakpoint_site_def)
  with others show ?thesis by blast
next
  case (WatchpointRef k)
  let ?w = "watchpoints (proc d) ! k"
  from WatchpointRef assms(2,3) have k: "k < length (watchpoints (proc d))"
    and e: "wp_is_enabled ?w" by simp_all
  from watchpoint_slot_in_slots [OF k e] assms(1)
  have i: "0 \<le> wp_hardware_register_index ?w" "wp_hardware_register_index ?w < 4"
    unfolding debugger_ok_def slots_ok_def by blast+
  from clear_hardware_stoppoint_frees [OF i assms(4)] obtain p'
    where c: "clear_hardware_stoppoint (proc d) (wp_hardware_register_index ?w) = (Inr (), p')"
      and f: "find_free_slot (debug_regs p' 7) \<noteq> None" by blast
  note fr = clear_hardware_stoppoint_frame [OF c]
  from e c have dis: "watchpoint_disable ?w (proc d)
      = (Inr (), ?w\<lparr>wp_hardware_register_index := - 1, wp_is_enabled := False\<rparr>, p')"
    by (simp add: watchpoint_disable_def)
  have others: "is_hardware_stoppoint (snd (disable_stoppoint d r)) r'
      \<and> \<not> stoppoint_enabled (snd (disable_stoppoint d r)) r'"
    if "is_hardware_stoppoint d r' \<and> \<not> stoppoint_enabled d r'" for r'
  proof (cases r')
    case (SiteRef j)
    with that k dis fr \<open>r = WatchpointRef k\<close> show ?thesis
      by (simp add: disable_watchpoint_def)
  next
    case (WatchpointRef j)
    with that e have "j \<noteq> k" by auto
    with that k dis fr WatchpointRef \<open>r = WatchpointRef k\<close> show ?thesis
      by (simp add: disable_watchpoint_def)
  qed
  from k dis fr f WatchpointRef have "fst (disable_stoppoint d r) = Inr ()"
    "find_free_slot (debug_regs (proc (snd (disable_stoppoint d r))) 7) \<noteq> None"
    "pokeuser_errno (proc (snd (disable_stoppoint d r))) = pokeuser_errno (proc d)"
    "read_errno (proc (snd (disable_stoppoint d r))) = read_errno (proc d)"
    by (simp_all add: disable_watchpoint_def)
  with others show ?thesis by blast
qed

lemma enable_stoppoint_free:
  assumes "debugger_ok d" and "find_free_slot (debug_regs (proc d) 7) \<noteq> None"
    and "is_hardware_stoppoint d r" and "\<not> stoppoint_enabled d r"
    and "\<forall>i. pokeuser_errno (proc d) i = 0" and "\<forall>a n. read_errno (proc d) a n = 0"
  shows "fst (enable_stoppoint d r) = Inr ()
    \<and> is_hardware_stoppoint (snd (enable_stoppoint d r)) r
    \<and> stoppoint_enabled (snd (enable_stoppoint d r)) r"
proof (cases r)
  case (SiteRef k)
  let ?s = "breakpoint_sites (proc d) ! k"
  from SiteRef assms(3,4) have k: "k < length (breakpoint_sites (proc d))"
    and h: "is_hardware ?s" and e: "\<not> is_enabled ?s" by simp_all
  from set_hardware_stoppoint_free [OF assms(2) _ assms(5), of 1 "address ?s" mode_execute]
  obtain i p' where a: "set_hardware_stoppoint (proc d) (address ?s) mode_execute 1 = (Inr i, p')"
    by auto
  note fr = set_hardware_stoppoint_frame [OF a]
  from h e a have "enable set_hardware_breakpoint ?s (proc d)
      = (Inr (), ?s\<lparr>hardware_register_index := i, is_enabled := True\<rparr>, p')"
    by (simp add: enable_def set_hardware_breakpoint_def)
  with k h fr SiteRef show ?thesis
    by (simp add: enable_breakpoint_site_def)
next
  case (WatchpointRef k)
  let ?w = "watchpoints (proc d) ! k"
  from WatchpointRef assms(3,4) have k: "k < length (watchpoints (proc d))"
    and e: "\<not> wp_is_enabled ?w" by simp_all
  from k assms(1) have sz: "wp_size ?w \<in> {1, 2, 4, 8}"
    unfolding debugger_ok_def using nth_mem [OF k] by blast
  from set_hardware_stoppoint_free [OF assms(2) sz assms(5), of "wp_address ?w" "wp_mode ?w"]
  obtain i p' where a:
    "set_hardware_stoppoint (proc d) (wp_address ?w) (wp_mode ?w) (wp_size ?w) = (Inr i, p')"
    by auto
  note fr = set_hardware_stoppoint_frame [OF a]
  from assms(6) obtain bs where "read_memory (proc d) (wp_address ?w) (wp_size ?w) = Some bs"
    by (simp add: read_memory_def)
  with e a have "watchpoint_enable ?w (proc d)
      = (Inr (), ?w\<lparr>wp_hardware_register_index := i, current_data := bs,
           wp_is_enabled := True\<rparr>, p')"
    by (simp add: watchpoint_enable_def set_watchpoint_def)
  with k fr WatchpointRef show ?thesis
    by (simp add: enable_watchpoint_def)
qed

text \<open>
  C6. In every state that a session reaches from a process without stop points, at
  most four hardware stop points (hardware breakpoint sites and watchpoints together)
  are enabled. When four are, enabling a further hardware stop point throws and leaves
  the whole debugger, the debug registers included, as it was. And when the kernel
  accepts the register writes and the read of the watched bytes, disabling any enabled
  hardware stop point returns, and enabling a disabled one after it returns and leaves
  that one enabled.
\<close>

theorem at_most_four_hardware_stoppoints:
  "let d = run commands (initial_debugger p)
   in length (enabled_hardware_slots (proc d)) \<le> 4
      \<and> (length (enabled_hardware_slots (proc d)) = 4
            \<and> is_hardware_stoppoint d fifth \<and> \<not> stoppoint_enabled d fifth \<longrightarrow>
          isl (fst (enable_stoppoint d fifth)) \<and> snd (enable_stoppoint d fifth) = d)
      \<and> (is_hardware_stoppoint d one \<and> stoppoint_enabled d one
            \<and> is_hardware_stoppoint d fifth \<and> \<not> stoppoint_enabled d fifth
            \<and> (\<forall>i. pokeuser_errno (proc d) i = 0) \<and> (\<forall>a n. read_errno (proc d) a n = 0) \<longrightarrow>
          fst (disable_stoppoint d one) = Inr ()
          \<and> fst (enable_stoppoint (snd (disable_stoppoint d one)) fifth) = Inr ()
          \<and> stoppoint_enabled (snd (enable_stoppoint (snd (disable_stoppoint d one)) fifth))
                fifth)"
proof -
  define d where "d = run commands (initial_debugger p)"
  have ok: "debugger_ok d"
    unfolding d_def by (rule run_ok) (rule initial_debugger_ok)
  then have "slots_ok (enabled_hardware_slots (proc d)) (debug_regs (proc d) 7)"
    by (simp add: debugger_ok_def)
  then have a: "length (enabled_hardware_slots (proc d)) \<le> 4"
    by (rule slots_ok_length)
  have b: "isl (fst (enable_stoppoint d fifth)) \<and> snd (enable_stoppoint d fifth) = d"
    if "length (enabled_hardware_slots (proc d)) = 4
            \<and> is_hardware_stoppoint d fifth \<and> \<not> stoppoint_enabled d fifth"
    using that enable_stoppoint_full [OF ok] by blast
  have c: "fst (disable_stoppoint d one) = Inr ()
          \<and> fst (enable_stoppoint (snd (disable_stoppoint d one)) fifth) = Inr ()
          \<and> stoppoint_enabled (snd (enable_stoppoint (snd (disable_stoppoint d one)) fifth))
                fifth"
    if h: "is_hardware_stoppoint d one \<and> stoppoint_enabled d one
            \<and> is_hardware_stoppoint d fifth \<and> \<not> stoppoint_enabled d fifth
            \<and> (\<forall>i. pokeuser_errno (proc d) i = 0) \<and> (\<forall>a n. read_errno (proc d) a n = 0)"
  proof -
    let ?d1 = "snd (disable_stoppoint d one)"
    from h disable_stoppoint_frees [OF ok, of one]
    have d1: "fst (disable_stoppoint d one) = Inr ()"
      "find_free_slot (debug_regs (proc ?d1) 7) \<noteq> None"
      "pokeuser_errno (proc ?d1) = pokeuser_errno (proc d)"
      "read_errno (proc ?d1) = read_errno (proc d)"
      "is_hardware_stoppoint ?d1 fifth" "\<not> stoppoint_enabled ?d1 fifth"
      by blast+
    have "debugger_ok ?d1"
      using ok disable_breakpoint_site_ok [of d] disable_watchpoint_ok [of d]
      by (cases one) simp_all
    from enable_stoppoint_free [OF this d1(2) d1(5) d1(6)] h d1(3,4)
    have "fst (enable_stoppoint ?d1 fifth) = Inr ()"
      "stoppoint_enabled (snd (enable_stoppoint ?d1 fifth)) fifth"
      by simp_all
    with d1(1) show ?thesis by simp
  qed
  from a b c show ?thesis
    unfolding Let_def d_def by blast
qed

lemma enable_errnos:
  assumes "enable set_hardware_breakpoint s p = (r, s', p')"
  shows "pokeuser_errno p' = pokeuser_errno p \<and> read_errno p' = read_errno p"
proof (cases "is_hardware s \<and> \<not> is_enabled s")
  case True
  obtain r1 p1 where h: "set_hardware_stoppoint p (address s) mode_execute 1 = (r1, p1)"
    by (cases "set_hardware_stoppoint p (address s) mode_execute 1")
  from set_hardware_stoppoint_frame [OF h] assms True h show ?thesis
    by (cases r1) (auto simp add: enable_def set_hardware_breakpoint_def)
next
  case False
  with assms show ?thesis
    by (auto simp add: enable_def ptrace_peekdata_def ptrace_pokedata_def Let_def
        split: if_splits)
qed

lemma disable_errnos:
  assumes "disable clear_hardware_stoppoint s p = (r, s', p')"
  shows "pokeuser_errno p' = pokeuser_errno p \<and> read_errno p' = read_errno p"
proof (cases "is_hardware s \<and> is_enabled s")
  case True
  obtain r1 p1 where h: "clear_hardware_stoppoint p (hardware_register_index s) = (r1, p1)"
    by (cases "clear_hardware_stoppoint p (hardware_register_index s)")
  from clear_hardware_stoppoint_frame [OF h] assms True h show ?thesis
    by (cases r1) (auto simp add: disable_def)
next
  case False
  with assms show ?thesis
    by (auto simp add: disable_def ptrace_peekdata_def ptrace_pokedata_def Let_def
        split: if_splits)
qed

lemma watchpoint_enable_errnos:
  assumes "watchpoint_enable w p = (r, w', p')"
  shows "pokeuser_errno p' = pokeuser_errno p \<and> read_errno p' = read_errno p"
proof -
  obtain r1 p1 where h: "set_hardware_stoppoint p (wp_address w) (wp_mode w) (wp_size w) = (r1, p1)"
    by (cases "set_hardware_stoppoint p (wp_address w) (wp_mode w) (wp_size w)")
  from set_hardware_stoppoint_frame [OF h] assms h show ?thesis
    by (cases r1)
      (auto simp add: watchpoint_enable_def set_watchpoint_def split: if_splits option.splits)
qed

lemma watchpoint_disable_errnos:
  assumes "watchpoint_disable w p = (r, w', p')"
  shows "pokeuser_errno p' = pokeuser_errno p \<and> read_errno p' = read_errno p"
proof -
  obtain r1 p1 where h: "clear_hardware_stoppoint p (wp_hardware_register_index w) = (r1, p1)"
    by (cases "clear_hardware_stoppoint p (wp_hardware_register_index w)")
  from clear_hardware_stoppoint_frame [OF h] assms h show ?thesis
    by (cases r1) (auto simp add: watchpoint_disable_def split: if_splits)
qed

lemma enable_breakpoint_site_errnos:
  "pokeuser_errno (proc (snd (enable_breakpoint_site d k))) = pokeuser_errno (proc d)
   \<and> read_errno (proc (snd (enable_breakpoint_site d k))) = read_errno (proc d)"
proof (cases "length (breakpoint_sites (proc d)) \<le> k")
  case True
  then show ?thesis by (simp add: enable_breakpoint_site_def)
next
  case False
  obtain r s' p' where e:
    "enable set_hardware_breakpoint (breakpoint_sites (proc d) ! k) (proc d) = (r, s', p')"
    by (cases "enable set_hardware_breakpoint (breakpoint_sites (proc d) ! k) (proc d)")
  from enable_errnos [OF e] False e show ?thesis
    by (simp add: enable_breakpoint_site_def)
qed

lemma enable_watchpoint_errnos:
  "pokeuser_errno (proc (snd (enable_watchpoint d k))) = pokeuser_errno (proc d)
   \<and> read_errno (proc (snd (enable_watchpoint d k))) = read_errno (proc d)"
proof (cases "length (watchpoints (proc d)) \<le> k")
  case True
  then show ?thesis by (simp add: enable_watchpoint_def)
next
  case False
  obtain r w' p' where e: "watchpoint_enable (watchpoints (proc d) ! k) (proc d) = (r, w', p')"
    by (cases "watchpoint_enable (watchpoints (proc d) ! k) (proc d)")
  from watchpoint_enable_errnos [OF e] False e show ?thesis
    by (simp add: enable_watchpoint_def)
qed

lemma create_errnos:
  "pokeuser_errno (proc (snd (create_breakpoint_site d a h i))) = pokeuser_errno (proc d)"
  "read_errno (proc (snd (create_breakpoint_site d a h i))) = read_errno (proc d)"
  "pokeuser_errno (proc (snd (create_watchpoint d a m sz))) = pokeuser_errno (proc d)"
  "read_errno (proc (snd (create_watchpoint d a m sz))) = read_errno (proc d)"
  by (simp_all add: create_breakpoint_site_def create_watchpoint_def new_watchpoint_def
      Let_def split: prod.splits)

lemma example_full_errnos:
  "pokeuser_errno (proc example_full_debugger) i = 0"
  "read_errno (proc example_full_debugger) a n = 0"
  by (simp_all add: example_full_debugger_def run_def enable_breakpoint_site_errnos
      enable_watchpoint_errnos create_errnos initial_debugger_def example_process_def)

theorem at_most_four_hardware_stoppoints_witness:
  "length (enabled_hardware_slots (proc example_full_debugger)) = 4
   \<and> is_hardware_stoppoint example_full_debugger (SiteRef 4)
   \<and> \<not> stoppoint_enabled example_full_debugger (SiteRef 4)
   \<and> isl (fst (enable_stoppoint example_full_debugger (SiteRef 4)))
   \<and> snd (enable_stoppoint example_full_debugger (SiteRef 4)) = example_full_debugger
   \<and> is_hardware_stoppoint example_full_debugger (WatchpointRef 0)
   \<and> stoppoint_enabled example_full_debugger (WatchpointRef 0)
   \<and> (\<forall>i. pokeuser_errno (proc example_full_debugger) i = 0)
   \<and> (\<forall>a n. read_errno (proc example_full_debugger) a n = 0)
   \<and> fst (disable_stoppoint example_full_debugger (WatchpointRef 0)) = Inr ()
   \<and> fst (enable_stoppoint (snd (disable_stoppoint example_full_debugger (WatchpointRef 0)))
         (SiteRef 4)) = Inr ()
   \<and> stoppoint_enabled (snd (enable_stoppoint
         (snd (disable_stoppoint example_full_debugger (WatchpointRef 0))) (SiteRef 4)))
       (SiteRef 4)"
proof -
  have n: "length (enabled_hardware_slots (proc example_full_debugger)) = 4"
    by code_simp
  have f: "is_hardware_stoppoint example_full_debugger (SiteRef 4)"
    "\<not> stoppoint_enabled example_full_debugger (SiteRef 4)"
    by code_simp+
  have o: "is_hardware_stoppoint example_full_debugger (WatchpointRef 0)"
    "stoppoint_enabled example_full_debugger (WatchpointRef 0)"
    by code_simp+
  from n f o example_full_errnos show ?thesis
    using at_most_four_hardware_stoppoints [of
        "[CreateBreakpointSite 0x401000 True False, CreateBreakpointSite 0x401010 True False,
          CreateBreakpointSite 0x401020 True False, CreateBreakpointSite 0x401030 False False,
          CreateBreakpointSite 0x401050 True False, CreateWatchpoint 0x402000 mode_write 4,
          EnableBreakpointSite 0, EnableBreakpointSite 1, EnableBreakpointSite 2,
          EnableBreakpointSite 3, EnableWatchpoint 0]" example_process "SiteRef 4"
        "WatchpointRef 0"]
    unfolding Let_def example_full_debugger_def [symmetric]
    by blast
qed

section \<open>The state of the process\<close>













section \<open>The enabled flag and the patched byte\<close>





lemma installed_cong:
  "tracee_memory p' (address s) = tracee_memory p (address s) \<Longrightarrow>
   installed original p' s = installed original p s"
  by (simp add: installed_def)



























end
